theory Spec2Isabelle
  imports Main "HOL-Library.Sublist"
begin

section \<open>The notebook execution queue (NotebookQueue.cpp)\<close>

text \<open>
  A shallow embedding of the scheduler of \<^verbatim>\<open>NotebookQueue.cpp\<close>. The C++ object
  \<^verbatim>\<open>NotebookQueue\<close> holds the list of document queues \<^verbatim>\<open>queue_\<close>, the current unit
  \<^verbatim>\<open>execUnit_\<close> and its context \<^verbatim>\<open>execContext_\<close> (the trailing underscore of the
  member names is dropped: Isabelle has no such names). Units are shared
  (\<^verbatim>\<open>boost::shared_ptr\<close>) between a document queue and \<^verbatim>\<open>execUnit_\<close>, and
  \<^verbatim>\<open>popExecRange\<close> mutates the unit through either reference, so units live in a
  store and the queues hold addresses. Everything the scheduler sends out (client
  events, console input, log entries, calls on the execution context, the interpreter
  error, the call of the alternate engine) is appended, in program order, to one list
  of effects. Every method works on a triple: the object, the store, the effects so
  far. All methods of the source that return \<^verbatim>\<open>Error\<close> return \<^verbatim>\<open>Success()\<close> on every
  path, so the models return the new state only.
\<close>

subsection \<open>Data\<close>

datatype ExpressionMode = ExprModeNew | ExprModeContinuation

datatype ChunkExecState = ChunkExecStarted | ChunkExecFinished | ChunkExecCancelled

text \<open>
  Modelled from the spec: the enumerations \<^verbatim>\<open>ExecMode\<close>, \<^verbatim>\<open>ExecScope\<close> and
  \<^verbatim>\<open>CommitMode\<close> are declared in headers that are not part of the sources; the spec
  gives executionMode {Batch, Interactive}, executionScope {Chunk, Line} and
  commitMode {Saved, Unsaved}. The source names \<^verbatim>\<open>ExecModeBatch\<close>,
  \<^verbatim>\<open>ExecScopeChunk\<close> and \<^verbatim>\<open>ModeCommitted\<close>.
\<close>

datatype ExecMode = ExecModeBatch | ExecModeInteractive

datatype ExecScope = ExecScopeChunk | ExecScopeLine

datatype CommitMode = ModeCommitted | ModeUncommitted

datatype Error = Success | Failure string

datatype json_value = JsonNull | JsonBool bool | JsonInt int | JsonString string

type_synonym json_object = "(string \<times> json_value) list"

text \<open>
  \<^verbatim>\<open>json::readObject(options, name, &value)\<close>: the value is overwritten when the
  member exists and has the wanted type, and keeps its initial value (the default the
  caller wrote into it) otherwise. Every caller in this file ignores the returned
  error.
\<close>

definition readObject_bool :: "json_object \<Rightarrow> string \<Rightarrow> bool \<Rightarrow> bool" where
  "readObject_bool obj name dflt =
     (case map_of obj name of Some (JsonBool b) \<Rightarrow> b | _ \<Rightarrow> dflt)"

definition readObject_string :: "json_object \<Rightarrow> string \<Rightarrow> string \<Rightarrow> string" where
  "readObject_string obj name dflt =
     (case map_of obj name of Some (JsonString s) \<Rightarrow> s | _ \<Rightarrow> dflt)"

type_synonym ExecRange = "int \<times> int"

text \<open>
  A unit (\<^verbatim>\<open>NotebookQueueUnit\<close>, whose source is not part of the repository
  files): its identity, mode and scope, the pending ranges each with the source text
  it yields, the text \<^verbatim>\<open>executingCode()\<close> reports, and what its methods
  \<^verbatim>\<open>parseOptions\<close> and \<^verbatim>\<open>innerCode\<close> return (the error, and the value left in the
  out parameter).
\<close>

record NotebookQueueUnit =
  u_docId :: string
  u_chunkId :: string
  execMode :: ExecMode
  execScope :: ExecScope
  pending :: "(ExecRange \<times> string) list"
  executingCode :: string
  parseOptions :: "Error \<times> json_object"
  innerCode :: "Error \<times> string"

type_synonym unit_ptr = nat

type_synonym store = "unit_ptr \<Rightarrow> NotebookQueueUnit"

record NotebookDocQueue =
  q_docId :: string
  commitMode :: CommitMode
  pixelWidth :: int
  charWidth :: int
  units :: "unit_ptr list"

record ChunkExecContext =
  c_docId :: string
  c_chunkId :: string
  c_nbCtxId :: string
  c_execScope :: ExecScope
  c_options :: json_object
  c_pixelWidth :: int
  c_charWidth :: int
  hasErrors :: bool

record NotebookQueue =
  queue :: "NotebookDocQueue list"
  execUnit :: "unit_ptr option"
  execContext :: "ChunkExecContext option"

text \<open>
  What the scheduler reads from its surroundings during one call: whether R is in the
  middle of an evaluation (\<^verbatim>\<open>r::getGlobalContext()->nextcontext != NULL\<close>), the two
  context ids, the client id, and the error the alternate engine returns for
  \<^verbatim>\<open>(docId, chunkId, ctx, engine, innerCode, options)\<close>.
\<close>

record env =
  rBusy :: bool
  kSavedCtx :: string
  notebookCtxId :: string
  clientId :: string
  executeAlternateEngineChunk ::
    "string \<Rightarrow> string \<Rightarrow> string \<Rightarrow> string \<Rightarrow> string \<Rightarrow> json_object \<Rightarrow> Error"

datatype effect =
    ChunkExecStateChanged string string ChunkExecState json_object
  | NotebookRangeExecuted string string ExecRange ExpressionMode string
  | ConsoleInput json_value string string
  | ThreadQuit
  | RError string
  | LogError Error
  | CtxConnect string string
  | CtxDisconnect string string
  | CtxExprComplete string string
  | AlternateEngineExec string string string string string json_object

type_synonym 'a world = "'a \<times> store \<times> effect list"

subsection \<open>The collaborators' methods\<close>

text \<open>
  Modelled from the spec: \<^verbatim>\<open>NotebookQueueUnit::complete\<close> is missing; "a unit is
  complete iff pendingRanges is empty".
\<close>

definition unit_complete :: "NotebookQueueUnit \<Rightarrow> bool" where
  "unit_complete u = (pending u = [])"

text \<open>
  Modelled from the spec: \<^verbatim>\<open>NotebookQueueUnit::popExecRange\<close> is missing; "consuming
  the next range is destructive (pop) and yields the literal source text to submit".
  The spec does not say what happens with no pending range; the model then leaves the
  unit as it is and yields the empty text and the range the caller's default
  constructed \<^verbatim>\<open>ExecRange\<close> holds, written (0, 0).
\<close>

definition popExecRange ::
  "ExpressionMode \<Rightarrow> NotebookQueueUnit \<Rightarrow> ExecRange \<times> string \<times> NotebookQueueUnit" where
  "popExecRange mode u =
     (case pending u of
        [] \<Rightarrow> ((0, 0), [], u)
      | (rng, code) # rest \<Rightarrow> (rng, code, u\<lparr>pending := rest\<rparr>))"

text \<open>
  Modelled from the spec: \<^verbatim>\<open>NotebookDocQueue::complete\<close> is missing; a document
  queue is "complete iff units is empty".
\<close>

definition docQueue_complete :: "NotebookDocQueue \<Rightarrow> bool" where
  "docQueue_complete dq = (units dq = [])"

text \<open>
  Modelled from the spec: \<^verbatim>\<open>NotebookDocQueue::update\<close> is missing; for the operation
  \<^verbatim>\<open>QueueDelete\<close> the spec says "Delete (match by doc/chunk identity, remove)" and
  "deleting a unit not present is a no-op". Every unit of the queue with the identity
  of the given one is removed.
\<close>

definition same_identity :: "NotebookQueueUnit \<Rightarrow> NotebookQueueUnit \<Rightarrow> bool" where
  "same_identity u v = (u_docId u = u_docId v \<and> u_chunkId u = u_chunkId v)"

definition docQueue_delete :: "store \<Rightarrow> unit_ptr \<Rightarrow> NotebookDocQueue \<Rightarrow> NotebookDocQueue" where
  "docQueue_delete h p dq =
     dq\<lparr>units := filter (\<lambda>b. \<not> same_identity (h b) (h p)) (units dq)\<rparr>"

subsection \<open>The methods of NotebookQueue\<close>

definition NotebookQueue_new :: NotebookQueue where
  "NotebookQueue_new = \<lparr>queue = [], execUnit = None, execContext = None\<rparr>"

definition NotebookQueue_complete :: "NotebookQueue \<Rightarrow> bool" where
  "NotebookQueue_complete q = (queue q = [])"

definition NotebookQueue_add :: "NotebookDocQueue \<Rightarrow> NotebookQueue \<Rightarrow> NotebookQueue" where
  "NotebookQueue_add pQueue q = q\<lparr>queue := queue q @ [pQueue]\<rparr>"

text \<open>\<^verbatim>\<open>clear\<close> disconnects the context and keeps the pointer to it.\<close>

fun clear :: "NotebookQueue world \<Rightarrow> NotebookQueue world" where
  "clear (q, h, out) =
     (q\<lparr>execUnit := None, queue := []\<rparr>, h,
      out @ (case execContext q of
               Some c \<Rightarrow> [CtxDisconnect (c_docId c) (c_chunkId c)]
             | None \<Rightarrow> []))"

text \<open>
  \<^verbatim>\<open>enqueueExecStateChanged\<close> reads the identity from \<^verbatim>\<open>execUnit_\<close>; every call in
  the source comes after \<^verbatim>\<open>execUnit_\<close> was tested or set, so the null case (a null
  dereference in C++) is never reached and is modelled as no event.
\<close>

fun enqueueExecStateChanged ::
  "ChunkExecState \<Rightarrow> json_object \<Rightarrow> NotebookQueue world \<Rightarrow> NotebookQueue world" where
  "enqueueExecStateChanged state options (q, h, out) =
     (case execUnit q of
        Some a \<Rightarrow>
          (q, h, out @ [ChunkExecStateChanged (u_docId (h a)) (u_chunkId (h a)) state options])
      | None \<Rightarrow> (q, h, out))"

fun sendConsoleInput ::
  "env \<Rightarrow> string \<Rightarrow> json_value \<Rightarrow> NotebookQueue world \<Rightarrow> NotebookQueue world" where
  "sendConsoleInput e chunk input (q, h, out) =
     (q, h, out @ [ConsoleInput input chunk (clientId e)])"

fun popUnit :: "unit_ptr \<Rightarrow> NotebookQueue world \<Rightarrow> NotebookQueue world" where
  "popUnit pUnit (q, h, out) =
     (case queue q of
        [] \<Rightarrow> (q, h, out)
      | docQueue # rest \<Rightarrow>
          (let docQueue' = docQueue_delete h pUnit docQueue
           in if docQueue_complete docQueue'
              then (q\<lparr>queue := rest\<rparr>, h, out)
              else (q\<lparr>queue := docQueue' # rest\<rparr>, h, out)))"

text \<open>
  Modelled from the spec: \<^verbatim>\<open>r::exec::error\<close> is not part of the sources; by the spec
  the scheduler raises "an interpreter-visible error describing the incomplete
  expression" and goes on to submit the empty line, so the call is an effect after
  which \<^verbatim>\<open>sendIncompleteError\<close> continues.
\<close>

fun sendIncompleteError :: "env \<Rightarrow> unit_ptr \<Rightarrow> NotebookQueue world \<Rightarrow> NotebookQueue world" where
  "sendIncompleteError e unit (q, h, out) =
     (let w = (q, h, out @ [RError (''Incomplete expression: '' @ executingCode (h unit))])
      in case execUnit q of
           Some a \<Rightarrow> sendConsoleInput e (u_chunkId (h a)) JsonNull w
         | None \<Rightarrow> w)"

fun executeCurrentUnit ::
  "env \<Rightarrow> ExpressionMode \<Rightarrow> NotebookQueue world \<Rightarrow> NotebookQueue world" where
  "executeCurrentUnit e mode (q, h, out) =
     (case execUnit q of
        None \<Rightarrow> (q, h, out)
      | Some a \<Rightarrow>
          (let out1 = (case execContext q of
                         Some c \<Rightarrow>
                           if mode = ExprModeNew
                           then out @ [CtxExprComplete (c_docId c) (c_chunkId c)]
                           else out
                       | None \<Rightarrow> out);
               (rng, code, u') = popExecRange mode (h a);
               h' = h(a := u');
               (q2, h2, out2) = sendConsoleInput e (u_chunkId (h' a)) (JsonString code) (q, h', out1)
           in (q2, h2,
               out2 @ [NotebookRangeExecuted (u_docId (h2 a)) (u_chunkId (h2 a)) rng mode code])))"

definition total_units :: "NotebookQueue \<Rightarrow> nat" where
  "total_units q = sum_list (map (\<lambda>dq. length (units dq)) (queue q))"

text \<open>
  \<^verbatim>\<open>executeNextUnit\<close> and \<^verbatim>\<open>skipUnit\<close> call each other. The tests
  \<^verbatim>\<open>queue_.empty()\<close> and \<^verbatim>\<open>docQueue->complete()\<close> are the two empty cases, and
  \<^verbatim>\<open>firstUnit()\<close> is the head of the units. The local \<^verbatim>\<open>error\<close> of the source is
  assigned by \<^verbatim>\<open>parseOptions\<close> and, only in the branch of the alternate engines, again
  by \<^verbatim>\<open>innerCode\<close> and \<^verbatim>\<open>executeAlternateEngineChunk\<close>; it is tested once, after
  the branch. Each skip removes at least the skipped unit, so the number of queued
  units decreases.
\<close>

function executeNextUnit ::
    "env \<Rightarrow> ExpressionMode \<Rightarrow> NotebookQueue world \<Rightarrow> NotebookQueue world"
  and skipUnit :: "env \<Rightarrow> NotebookQueue world \<Rightarrow> NotebookQueue world" where
  "executeNextUnit e mode (q, h, out) =
     (case queue q of
        [] \<Rightarrow> (q, h, out)
      | docQueue # rest \<Rightarrow>
          (case units docQueue of
             [] \<Rightarrow> (q, h, out)
           | unit # others \<Rightarrow>
               (let (error, options) = parseOptions (h unit);
                    out1 = (if error \<noteq> Success then out @ [LogError error] else out)
                in if execMode (h unit) = ExecModeBatch \<and> \<not> readObject_bool options ''eval'' True
                   then skipUnit e (q, h, out1)
                   else
                     (let ctx = (if commitMode docQueue = ModeCommitted
                                 then kSavedCtx e else notebookCtxId e);
                          engine = readObject_string options ''engine'' ''r'';
                          (error', w) =
                            (if engine = ''r''
                             then
                               (error,
                                enqueueExecStateChanged ChunkExecStarted options
                                  (q\<lparr>execContext := Some
                                        \<lparr>c_docId = u_docId (h unit), c_chunkId = u_chunkId (h unit),
                                         c_nbCtxId = ctx, c_execScope = execScope (h unit),
                                         c_options = options, c_pixelWidth = pixelWidth docQueue,
                                         c_charWidth = charWidth docQueue, hasErrors = False\<rparr>,
                                      execUnit := Some unit\<rparr>,
                                   h,
                                   out1 @ [CtxConnect (u_docId (h unit)) (u_chunkId (h unit))]))
                             else
                               (case innerCode (h unit) of
                                  (Failure msg, code) \<Rightarrow> (Failure msg, (q, h, out1 @ [LogError (Failure msg)]))
                                | (Success, code) \<Rightarrow>
                                    (case enqueueExecStateChanged ChunkExecStarted options
                                            (q\<lparr>execUnit := Some unit\<rparr>, h, out1) of
                                       (q2, h2, out2) \<Rightarrow>
                                         (let error2 = executeAlternateEngineChunk e
                                                (u_docId (h unit)) (u_chunkId (h unit)) ctx engine code options;
                                              out3 = out2 @ [AlternateEngineExec
                                                (u_docId (h unit)) (u_chunkId (h unit)) ctx engine code options]
                                          in (error2,
                                              (q2, h2,
                                               if error2 \<noteq> Success then out3 @ [LogError error2] else out3))))))
                      in if error' \<noteq> Success then skipUnit e w
                         else if engine = ''r'' then executeCurrentUnit e ExprModeNew w
                         else w))))"
| "skipUnit e (q, h, out) =
     (case queue q of
        [] \<Rightarrow> (q, h, out)
      | docQueue # rest \<Rightarrow>
          (case units docQueue of
             [] \<Rightarrow> (q, h, out)
           | unit # others \<Rightarrow>
               (case popUnit unit (q, h, out) of
                  (q1, h1, out1) \<Rightarrow>
                    executeNextUnit e ExprModeNew
                      (enqueueExecStateChanged ChunkExecCancelled []
                         (q1\<lparr>execUnit := Some unit\<rparr>, h1, out1)))))"
  by pat_completeness auto
termination
  apply (relation "measure (\<lambda>x. case x of
      Inl (e, mode, (q, h, out)) \<Rightarrow> 2 * total_units q + 1
    | Inr (e, (q, h, out)) \<Rightarrow> 2 * total_units q)")
   apply simp
  apply (auto simp: total_units_def docQueue_delete_def docQueue_complete_def same_identity_def
      Let_def le_imp_less_Suc
      split: if_splits prod.splits option.splits Error.splits)
  done

text \<open>
  The test of \<^verbatim>\<open>process\<close> on the context: an error was reported and the option
  \<^verbatim>\<open>error\<close> of the context's options, read with the default false, is not true.
\<close>

definition fatalError :: "NotebookQueue \<Rightarrow> bool" where
  "fatalError q =
     (case execContext q of
        Some c \<Rightarrow> hasErrors c \<and> \<not> readObject_bool (c_options c) ''error'' False
      | None \<Rightarrow> False)"

fun process :: "env \<Rightarrow> ExpressionMode \<Rightarrow> NotebookQueue world \<Rightarrow> NotebookQueue world" where
  "process e mode (q, h, out) =
     (if queue q = [] then (q, h, out)
      else if rBusy e then (q, h, out)
      else
        (case execUnit q of
           Some a \<Rightarrow>
             if fatalError q then clear (q, h, out)
             else if unit_complete (h a) then
               (let incomplete = (mode = ExprModeContinuation \<and> execScope (h a) = ExecScopeChunk);
                    w1 = (if incomplete then sendIncompleteError e a (q, h, out) else (q, h, out));
                    w2 = popUnit a w1;
                    (q3, h3, out3) =
                      enqueueExecStateChanged ChunkExecFinished
                        (case execContext q of Some c \<Rightarrow> c_options c | None \<Rightarrow> []) w2;
                    out4 = (case execContext q3 of
                              Some c \<Rightarrow> out3 @ [CtxDisconnect (c_docId c) (c_chunkId c)]
                            | None \<Rightarrow> out3);
                    w5 = (q3\<lparr>execContext := None, execUnit := None\<rparr>, h3, out4)
                in if incomplete then w5 else executeNextUnit e mode w5)
             else executeCurrentUnit e mode (q, h, out)
         | None \<Rightarrow> executeNextUnit e mode (q, h, out)))"

text \<open>The method \<^verbatim>\<open>NotebookQueue::onConsolePrompt\<close>.\<close>

definition NotebookQueue_onConsolePrompt ::
  "env \<Rightarrow> string \<Rightarrow> NotebookQueue world \<Rightarrow> NotebookQueue world" where
  "NotebookQueue_onConsolePrompt e prompt w =
     process e (if prompt = ''+ '' then ExprModeContinuation else ExprModeNew) w"

fun onChunkExecCompleted ::
  "env \<Rightarrow> string \<Rightarrow> string \<Rightarrow> string \<Rightarrow> NotebookQueue world \<Rightarrow> NotebookQueue world" where
  "onChunkExecCompleted e docId chunkId nbCtxId (q, h, out) =
     (case execUnit q of
        None \<Rightarrow> (q, h, out)
      | Some a \<Rightarrow>
          if u_docId (h a) = docId \<and> u_chunkId (h a) = chunkId \<and> execContext q = None
          then
            (case enqueueExecStateChanged ChunkExecFinished [] (popUnit a (q, h, out)) of
               (q2, h2, out2) \<Rightarrow> process e ExprModeNew (q2\<lparr>execUnit := None\<rparr>, h2, out2))
          else (q, h, out))"

subsection \<open>The session: the global queue and its handlers\<close>

text \<open>
  \<^verbatim>\<open>s_queue\<close> is the first component: \<open>None\<close> when no queue exists. Destroying the
  queue (\<^verbatim>\<open>s_queue.reset()\<close>) runs the destructor, which puts the quit command on the
  console thread's queue.
\<close>

fun executeNotebookChunks ::
  "env \<Rightarrow> NotebookDocQueue \<Rightarrow> NotebookQueue option world \<Rightarrow> NotebookQueue option world" where
  "executeNotebookChunks e pQueue (s_queue, h, out) =
     (let q = (case s_queue of None \<Rightarrow> NotebookQueue_new | Some q \<Rightarrow> q);
          (q', h', out') = process e ExprModeNew (NotebookQueue_add pQueue q, h, out)
      in (Some q', h', out'))"

fun onConsolePrompt ::
  "env \<Rightarrow> string \<Rightarrow> NotebookQueue option world \<Rightarrow> NotebookQueue option world" where
  "onConsolePrompt e prompt (s_queue, h, out) =
     (case s_queue of
        None \<Rightarrow> (None, h, out)
      | Some q \<Rightarrow>
          (case NotebookQueue_onConsolePrompt e prompt (q, h, out) of
             (q', h', out') \<Rightarrow>
               if NotebookQueue_complete q' then (None, h', out' @ [ThreadQuit])
               else (Some q', h', out')))"

fun onUserInterrupt :: "NotebookQueue option world \<Rightarrow> NotebookQueue option world" where
  "onUserInterrupt (s_queue, h, out) =
     (case s_queue of
        None \<Rightarrow> (None, h, out)
      | Some q \<Rightarrow>
          (case clear (q, h, out) of
             (q', h', out') \<Rightarrow> (None, h', out' @ [ThreadQuit])))"

text \<open>
  The signal \<^verbatim>\<open>events().onChunkExecCompleted\<close> reaches the queue's handler while the
  queue exists (the destructor disconnects it).
\<close>

fun chunkExecCompleted ::
  "env \<Rightarrow> string \<Rightarrow> string \<Rightarrow> string \<Rightarrow> NotebookQueue option world \<Rightarrow> NotebookQueue option world" where
  "chunkExecCompleted e docId chunkId nbCtxId (s_queue, h, out) =
     (case s_queue of
        None \<Rightarrow> (None, h, out)
      | Some q \<Rightarrow>
          (case onChunkExecCompleted e docId chunkId nbCtxId (q, h, out) of
             (q', h', out') \<Rightarrow> (Some q', h', out')))"


subsection \<open>Notions used in the statements\<close>

text \<open>
  The list of document queues \<^verbatim>\<open>popUnit\<close> leaves (lemma \<open>popUnit_eq\<close>): the units
  with the identity of \<open>p\<close> are deleted from the head queue, and the head queue is
  dropped when that empties it.
\<close>

definition dropUnit :: "store \<Rightarrow> unit_ptr \<Rightarrow> NotebookDocQueue list \<Rightarrow> NotebookDocQueue list" where
  "dropUnit h p dqs =
     (case dqs of
        [] \<Rightarrow> []
      | dq # rest \<Rightarrow>
          if units (docQueue_delete h p dq) = [] then rest else docQueue_delete h p dq # rest)"



text \<open>The identity of a unit, and the client events that carry a given identity.\<close>

definition identity :: "NotebookQueueUnit \<Rightarrow> string \<times> string" where
  "identity u = (u_docId u, u_chunkId u)"

fun about :: "string \<times> string \<Rightarrow> effect \<Rightarrow> bool" where
  "about i (ChunkExecStateChanged d c s opts) = (i = (d, c))"
| "about i (NotebookRangeExecuted d c r m code) = (i = (d, c))"
| "about i ef = False"

text \<open>All queued units, document queue after document queue.\<close>

definition queued :: "NotebookDocQueue list \<Rightarrow> unit_ptr list" where
  "queued dqs = concat (map units dqs)"

text \<open>
  The units that run, in their order: all queued units but those that share the
  identity of an earlier unit of their own document queue (\<^verbatim>\<open>popUnit\<close> removes them
  together with that unit, lemma \<open>schedule_dropUnit\<close>). When the identities within
  each document queue differ, these are all queued units (lemma \<open>schedule_distinct\<close>).
\<close>

function visited :: "store \<Rightarrow> unit_ptr list \<Rightarrow> unit_ptr list" where
  "visited h [] = []"
| "visited h (a # us) = a # visited h (filter (\<lambda>b. \<not> same_identity (h b) (h a)) us)"
  by pat_completeness auto
termination
  by (relation "measure (\<lambda>(h, us). length us)") (auto simp: le_imp_less_Suc)

definition schedule :: "store \<Rightarrow> NotebookDocQueue list \<Rightarrow> unit_ptr list" where
  "schedule h dqs = concat (map (\<lambda>dq. visited h (units dq)) dqs)"

text \<open>
  The state notifications among the effects, in the order they were sent, and the
  notifications expected when the given units run one after the other: Started and
  Finished for the first, then Started and Finished for the second, and so on.
\<close>

fun lifecycle :: "effect list \<Rightarrow> (ChunkExecState \<times> string \<times> string) list" where
  "lifecycle [] = []"
| "lifecycle (ChunkExecStateChanged d c s opts # es) = (s, d, c) # lifecycle es"
| "lifecycle (ef # es) = lifecycle es"

definition expected :: "store \<Rightarrow> unit_ptr list \<Rightarrow> (ChunkExecState \<times> string \<times> string) list" where
  "expected h ps =
     concat (map (\<lambda>p. [(ChunkExecStarted, identity (h p)), (ChunkExecFinished, identity (h p))]) ps)"

text \<open>
  A unit that is neither skipped nor fails: its options parse, it is not a batch unit
  with \<^verbatim>\<open>eval = FALSE\<close>, and its inner code can be read when it is for an alternate
  engine. An environment in which the alternate engine reports no error.
\<close>

definition runs_clean :: "NotebookQueueUnit \<Rightarrow> bool" where
  "runs_clean u =
     (fst (parseOptions u) = Success \<and>
      \<not> (execMode u = ExecModeBatch \<and> \<not> readObject_bool (snd (parseOptions u)) ''eval'' True) \<and>
      (readObject_string (snd (parseOptions u)) ''engine'' ''r'' = ''r'' \<or>
       fst (innerCode u) = Success))"

definition engine_succeeds :: "env \<Rightarrow> bool" where
  "engine_succeeds e =
     (\<forall>docId chunkId ctx engine code options.
        executeAlternateEngineChunk e docId chunkId ctx engine code options = Success)"

text \<open>
  The readiness signals the session receives, and a run: the signals are delivered one
  after the other, each in the environment of its moment.
\<close>

datatype signal = ConsolePromptShown string | ChunkExecutionCompleted string string string

fun deliver :: "env \<Rightarrow> signal \<Rightarrow> NotebookQueue option world \<Rightarrow> NotebookQueue option world" where
  "deliver e (ConsolePromptShown prompt) w = onConsolePrompt e prompt w"
| "deliver e (ChunkExecutionCompleted docId chunkId nbCtxId) w =
     chunkExecCompleted e docId chunkId nbCtxId w"

fun run :: "(env \<times> signal) list \<Rightarrow> NotebookQueue option world \<Rightarrow> NotebookQueue option world" where
  "run [] w = w"
| "run ((e, s) # rest) w = run rest (deliver e s w)"

text \<open>
  The invariant of a run without skips and errors. \<open>E\<close> is the whole expected
  sequence and \<open>seen\<close> the notifications sent so far. With no current unit, what was
  seen and what the units still to run will send make up \<open>E\<close>; with a current unit,
  that unit is the first of the head queue and its Started has been seen.
\<close>

definition orderly ::
  "(ChunkExecState \<times> string \<times> string) list \<Rightarrow> (ChunkExecState \<times> string \<times> string) list \<Rightarrow>
   NotebookQueue \<Rightarrow> store \<Rightarrow> bool" where
  "orderly E seen q h =
     ((\<forall>p \<in> set (queued (queue q)). runs_clean (h p)) \<and>
      (case execUnit q of
         None \<Rightarrow> execContext q = None \<and> seen @ expected h (schedule h (queue q)) = E
       | Some a \<Rightarrow>
           (case execContext q of None \<Rightarrow> True | Some c \<Rightarrow> \<not> hasErrors c) \<and>
           (\<exists>dq rest us. queue q = dq # rest \<and> units dq = a # us) \<and>
           seen @ tl (expected h (schedule h (queue q))) = E))"

subsection \<open>Example states\<close>

definition ex_env :: env where
  "ex_env = \<lparr>rBusy = False, kSavedCtx = ''saved'', notebookCtxId = ''live'', clientId = ''client'',
     executeAlternateEngineChunk = (\<lambda>docId chunkId ctx engine code options. Success)\<rparr>"

definition ex_unit ::
  "string \<Rightarrow> string \<Rightarrow> (ExecRange \<times> string) list \<Rightarrow> Error \<times> json_object \<Rightarrow> NotebookQueueUnit" where
  "ex_unit doc chunk ranges parsed =
     \<lparr>u_docId = doc, u_chunkId = chunk, execMode = ExecModeBatch, execScope = ExecScopeChunk,
      pending = ranges, executingCode = ''f('', parseOptions = parsed,
      innerCode = (Success, ''print(1)'')\<rparr>"

definition ex_docQueue :: "string \<Rightarrow> unit_ptr list \<Rightarrow> NotebookDocQueue" where
  "ex_docQueue doc ps =
     \<lparr>q_docId = doc, commitMode = ModeCommitted, pixelWidth = 640, charWidth = 80, units = ps\<rparr>"

definition ex_context :: "string \<Rightarrow> json_object \<Rightarrow> bool \<Rightarrow> ChunkExecContext" where
  "ex_context chunk options err =
     \<lparr>c_docId = ''d1'', c_chunkId = chunk, c_nbCtxId = ''saved'', c_execScope = ExecScopeChunk,
      c_options = options, c_pixelWidth = 640, c_charWidth = 80, hasErrors = err\<rparr>"

text \<open>
  The store of the examples. In document d1: unit 1 is chunk c1 with no range left,
  unit 2 is chunk c2 with one range, unit 3 is chunk c3 whose options say
  \<^verbatim>\<open>eval = FALSE\<close>, unit 4 is chunk c4 whose options cannot be parsed, unit 5 is chunk
  c5 for the engine python. Unit 6 is chunk c6 of document d2, with one range.
\<close>

definition ex_store :: store where
  "ex_store =
     (\<lambda>p. ex_unit ''d1'' ''c1'' [] (Success, []))
       (2 := ex_unit ''d1'' ''c2'' [((0, 4), ''1+1'')] (Success, []),
        3 := ex_unit ''d1'' ''c3'' [((5, 9), ''2+2'')] (Success, [(''eval'', JsonBool False)]),
        4 := ex_unit ''d1'' ''c4'' [((10, 14), ''3+3'')] (Failure ''bad options'', []),
        5 := ex_unit ''d1'' ''c5'' [((15, 23), ''print(1)'')]
               (Success, [(''engine'', JsonString ''python'')]),
        6 := ex_unit ''d2'' ''c6'' [((0, 3), ''g('')] (Success, []))"

text \<open>Chunk c1 is current on the R engine, chunk c2 waits behind it.\<close>

definition ex_running :: "bool \<Rightarrow> NotebookQueue" where
  "ex_running err =
     \<lparr>queue = [ex_docQueue ''d1'' [1, 2]], execUnit = Some 1,
      execContext = Some (ex_context ''c1'' [] err)\<rparr>"

text \<open>
  Chunk c1 is current on the R engine with the option \<^verbatim>\<open>error = TRUE\<close>, its context
  reports an error, and chunk c2 waits behind it.
\<close>

definition ex_tolerant :: NotebookQueue where
  "ex_tolerant =
     \<lparr>queue = [ex_docQueue ''d1'' [1, 2]], execUnit = Some 1,
      execContext = Some (ex_context ''c1'' [(''error'', JsonBool True)] True)\<rparr>"

text \<open>Chunk c5 is current on the alternate engine (no context), chunk c2 waits behind it.\<close>

definition ex_alternate :: NotebookQueue where
  "ex_alternate = \<lparr>queue = [ex_docQueue ''d1'' [5, 2]], execUnit = Some 5, execContext = None\<rparr>"

text \<open>No unit is current and the given units wait in one document queue of d1.\<close>

definition ex_waiting :: "unit_ptr list \<Rightarrow> NotebookQueue" where
  "ex_waiting ps = \<lparr>queue = [ex_docQueue ''d1'' ps], execUnit = None, execContext = None\<rparr>"

text \<open>
  Two documents wait: d1 with the chunks c2 and c5, then d2 with chunk c6. The signals
  run them to the end: two prompts, the completion of c5, a continuation prompt (c6
  ended inside an expression) and a last prompt.
\<close>

definition ex_two_documents :: NotebookQueue where
  "ex_two_documents =
     \<lparr>queue = [ex_docQueue ''d1'' [2, 5], ex_docQueue ''d2'' [6]],
      execUnit = None, execContext = None\<rparr>"

definition ex_signals :: "(env \<times> signal) list" where
  "ex_signals =
     [(ex_env, ConsolePromptShown ''> ''),
      (ex_env, ConsolePromptShown ''> ''),
      (ex_env, ChunkExecutionCompleted ''d1'' ''c5'' ''saved''),
      (ex_env, ConsolePromptShown ''+ ''),
      (ex_env, ConsolePromptShown ''> '')]"

lemmas ex_defs =
  ex_env_def ex_unit_def ex_docQueue_def ex_context_def ex_store_def ex_running_def
  ex_tolerant_def ex_alternate_def ex_waiting_def ex_two_documents_def ex_signals_def

lemmas model_defs =
  fatalError_def unit_complete_def docQueue_delete_def docQueue_complete_def same_identity_def
  readObject_bool_def readObject_string_def popExecRange_def NotebookQueue_complete_def
  NotebookQueue_onConsolePrompt_def NotebookQueue_new_def NotebookQueue_add_def dropUnit_def
  identity_def queued_def expected_def

lemmas run_simps = process.simps executeNextUnit.simps skipUnit.simps

declare executeNextUnit.simps [simp del] skipUnit.simps [simp del] process.simps [simp del]


section \<open>Properties\<close>

subsection \<open>Unfolding the methods\<close>

lemma popUnit_eq: "popUnit p (q, h, out) = (q\<lparr>queue := dropUnit h p (queue q)\<rparr>, h, out)"
  by (simp add: dropUnit_def docQueue_complete_def Let_def split: list.splits)

lemma docQueue_delete_removes: "p \<notin> set (units (docQueue_delete h p dq))"
  by (simp add: docQueue_delete_def same_identity_def)

lemma skipUnit_unfold:
  assumes "queue q = dq # rest" and "units dq = a # us"
  shows "skipUnit e (q, h, out) =
     executeNextUnit e ExprModeNew
       (q\<lparr>queue := dropUnit h a (queue q), execUnit := Some a\<rparr>, h,
        out @ [ChunkExecStateChanged (u_docId (h a)) (u_chunkId (h a)) ChunkExecCancelled []])"
  using assms by (simp add: skipUnit.simps popUnit_eq del: popUnit.simps)

lemma executeNextUnit_skip:
  assumes "queue q = dq # rest" and "units dq = a # us"
    and "execMode (h a) = ExecModeBatch" and "parseOptions (h a) = (err, options)"
    and "map_of options ''eval'' = Some (JsonBool False)"
  shows "executeNextUnit e mode (q, h, out) =
     executeNextUnit e ExprModeNew
       (q\<lparr>queue := dropUnit h a (queue q), execUnit := Some a\<rparr>, h,
        out @ (if err \<noteq> Success then [LogError err] else [])
            @ [ChunkExecStateChanged (u_docId (h a)) (u_chunkId (h a)) ChunkExecCancelled []])"
proof -
  have "executeNextUnit e mode (q, h, out) =
      skipUnit e (q, h, if err \<noteq> Success then out @ [LogError err] else out)"
    using assms by (simp add: executeNextUnit.simps readObject_bool_def)
  then show ?thesis
    using assms(1,2) by (simp add: skipUnit_unfold)
qed


lemma executeCurrentUnit_frame:
  assumes "execUnit q = Some a"
  shows "\<exists>h' new. executeCurrentUnit e mode (q, h, out) = (q, h', out @ new) \<and>
     (\<forall>ef \<in> set new. \<forall>i. about i ef \<longrightarrow> i = identity (h a)) \<and>
     (\<forall>p. p \<noteq> a \<longrightarrow> h' p = h p) \<and> identity (h' a) = identity (h a)"
  using assms
  by (auto simp: popExecRange_def identity_def Let_def split: option.splits list.splits prod.splits)


lemma executeNextUnit_unfold:
  assumes "queue q = dq # rest" and "units dq = a # us"
    and "parseOptions (h a) = (err, options)" and "innerCode (h a) = (err2, code)"
  shows "executeNextUnit e mode (q, h, out) =
    (let out1 = (if err \<noteq> Success then out @ [LogError err] else out);
         ctx = (if commitMode dq = ModeCommitted then kSavedCtx e else notebookCtxId e);
         engine = readObject_string options ''engine'' ''r''
     in if execMode (h a) = ExecModeBatch \<and> \<not> readObject_bool options ''eval'' True
        then skipUnit e (q, h, out1)
        else if engine = ''r'' then
          (let w = (q\<lparr>execContext := Some
                        \<lparr>c_docId = u_docId (h a), c_chunkId = u_chunkId (h a),
                         c_nbCtxId = ctx, c_execScope = execScope (h a),
                         c_options = options, c_pixelWidth = pixelWidth dq,
                         c_charWidth = charWidth dq, hasErrors = False\<rparr>,
                      execUnit := Some a\<rparr>,
                    h,
                    out1 @ [CtxConnect (u_docId (h a)) (u_chunkId (h a)),
                            ChunkExecStateChanged (u_docId (h a)) (u_chunkId (h a))
                              ChunkExecStarted options])
           in if err \<noteq> Success then skipUnit e w else executeCurrentUnit e ExprModeNew w)
        else if err2 \<noteq> Success then skipUnit e (q, h, out1 @ [LogError err2])
        else
          (let error2 = executeAlternateEngineChunk e (u_docId (h a)) (u_chunkId (h a))
                          ctx engine code options;
               w = (q\<lparr>execUnit := Some a\<rparr>, h,
                    out1 @ [ChunkExecStateChanged (u_docId (h a)) (u_chunkId (h a))
                              ChunkExecStarted options,
                            AlternateEngineExec (u_docId (h a)) (u_chunkId (h a))
                              ctx engine code options]
                         @ (if error2 \<noteq> Success then [LogError error2] else []))
           in if error2 \<noteq> Success then skipUnit e w else w))"
  using assms
  by (cases err2) (simp_all add: executeNextUnit.simps Let_def)


lemma executeNextUnit_step:
  assumes "queue q = dq # rest" and "units dq = a # us"
  shows "(\<exists>pre qx. executeNextUnit e mode (q, h, out) = skipUnit e (qx, h, out @ pre) \<and>
            queue qx = queue q \<and>
            (\<forall>ef \<in> set pre. \<forall>i. about i ef \<longrightarrow> i = identity (h a))) \<or>
         (\<exists>q' h' new. executeNextUnit e mode (q, h, out) = (q', h', out @ new) \<and>
            (\<forall>ef \<in> set new. \<forall>i. about i ef \<longrightarrow> i = identity (h a)) \<and>
            (\<forall>p. p \<noteq> a \<longrightarrow> h' p = h p))"
proof -
  obtain err options where po: "parseOptions (h a) = (err, options)"
    by (cases "parseOptions (h a)")
  obtain err2 code where ic: "innerCode (h a) = (err2, code)"
    by (cases "innerCode (h a)")
  note unf = executeNextUnit_unfold [where h = h and a = a, OF assms po ic, of e mode out]
  define out1 where "out1 = (if err \<noteq> Success then out @ [LogError err] else out)"
  define pre1 where "pre1 = (if err \<noteq> Success then [LogError err] else [])"
  have out1: "out1 = out @ pre1"
    by (simp add: out1_def pre1_def)
  define ctx where "ctx = (if commitMode dq = ModeCommitted then kSavedCtx e else notebookCtxId e)"
  define engine where "engine = readObject_string options ''engine'' ''r''"
  let ?skip = "\<lambda>pre qx. executeNextUnit e mode (q, h, out) = skipUnit e (qx, h, out @ pre) \<and>
            queue qx = queue q \<and>
            (\<forall>ef \<in> set pre. \<forall>i. about i ef \<longrightarrow> i = identity (h a))"
  let ?stop = "\<lambda>q' h' new. executeNextUnit e mode (q, h, out) = (q', h', out @ new) \<and>
            (\<forall>ef \<in> set new. \<forall>i. about i ef \<longrightarrow> i = identity (h a)) \<and>
            (\<forall>p. p \<noteq> a \<longrightarrow> h' p = h p)"
  consider
      (skip) "execMode (h a) = ExecModeBatch \<and> \<not> readObject_bool options ''eval'' True"
    | (r_err) "\<not> (execMode (h a) = ExecModeBatch \<and> \<not> readObject_bool options ''eval'' True)"
        "engine = ''r''" "err \<noteq> Success"
    | (r_ok) "\<not> (execMode (h a) = ExecModeBatch \<and> \<not> readObject_bool options ''eval'' True)"
        "engine = ''r''" "err = Success"
    | (alt_nocode) "\<not> (execMode (h a) = ExecModeBatch \<and> \<not> readObject_bool options ''eval'' True)"
        "engine \<noteq> ''r''" "err2 \<noteq> Success"
    | (alt) "\<not> (execMode (h a) = ExecModeBatch \<and> \<not> readObject_bool options ''eval'' True)"
        "engine \<noteq> ''r''" "err2 = Success"
    by blast
  then show ?thesis
  proof cases
    case skip
    then have "?skip pre1 q"
      using unf by (simp add: pre1_def Let_def)
    then show ?thesis by blast
  next
    case r_err
    let ?qx = "q\<lparr>execContext := Some
                        \<lparr>c_docId = u_docId (h a), c_chunkId = u_chunkId (h a),
                         c_nbCtxId = ctx, c_execScope = execScope (h a),
                         c_options = options, c_pixelWidth = pixelWidth dq,
                         c_charWidth = charWidth dq, hasErrors = False\<rparr>,
                      execUnit := Some a\<rparr>"
    have "?skip (pre1 @ [CtxConnect (u_docId (h a)) (u_chunkId (h a)),
                            ChunkExecStateChanged (u_docId (h a)) (u_chunkId (h a))
                              ChunkExecStarted options]) ?qx"
      using unf r_err by (auto simp: pre1_def Let_def engine_def ctx_def identity_def)
    then show ?thesis by blast
  next
    case r_ok
    let ?qx = "q\<lparr>execContext := Some
                        \<lparr>c_docId = u_docId (h a), c_chunkId = u_chunkId (h a),
                         c_nbCtxId = ctx, c_execScope = execScope (h a),
                         c_options = options, c_pixelWidth = pixelWidth dq,
                         c_charWidth = charWidth dq, hasErrors = False\<rparr>,
                      execUnit := Some a\<rparr>"
    let ?pre = "pre1 @ [CtxConnect (u_docId (h a)) (u_chunkId (h a)),
                            ChunkExecStateChanged (u_docId (h a)) (u_chunkId (h a))
                              ChunkExecStarted options]"
    have run: "executeNextUnit e mode (q, h, out) = executeCurrentUnit e ExprModeNew (?qx, h, out @ ?pre)"
      using unf r_ok by (auto simp: pre1_def Let_def engine_def ctx_def)
    have "execUnit ?qx = Some a" by simp
    from executeCurrentUnit_frame [OF this, of e ExprModeNew h "out @ ?pre"]
    obtain h' new where cur: "executeCurrentUnit e ExprModeNew (?qx, h, out @ ?pre) = (?qx, h', (out @ ?pre) @ new)"
      and new: "\<forall>ef \<in> set new. \<forall>i. about i ef \<longrightarrow> i = identity (h a)"
      and frame: "\<forall>p. p \<noteq> a \<longrightarrow> h' p = h p"
      by blast
    have "?stop ?qx h' (?pre @ new)"
      using run cur new frame by (auto simp: pre1_def identity_def)
    then show ?thesis by blast
  next
    case alt_nocode
    then have "?skip (pre1 @ [LogError err2]) q"
      using unf by (auto simp: pre1_def Let_def engine_def)
    then show ?thesis by blast
  next
    case alt
    define error2 where "error2 = executeAlternateEngineChunk e (u_docId (h a)) (u_chunkId (h a))
                          ctx engine code options"
    let ?pre = "pre1 @ [ChunkExecStateChanged (u_docId (h a)) (u_chunkId (h a))
                              ChunkExecStarted options,
                            AlternateEngineExec (u_docId (h a)) (u_chunkId (h a))
                              ctx engine code options]"
    show ?thesis
    proof (cases "error2 = Success")
      case True
      then have "?stop (q\<lparr>execUnit := Some a\<rparr>) h ?pre"
        using unf alt by (auto simp: pre1_def Let_def engine_def ctx_def identity_def error2_def)
      then show ?thesis by blast
    next
      case False
      then have "?skip (?pre @ [LogError error2]) (q\<lparr>execUnit := Some a\<rparr>)"
        using unf alt by (auto simp: pre1_def Let_def engine_def ctx_def identity_def error2_def)
      then show ?thesis by blast
    qed
  qed
qed


lemma total_units_dropUnit:
  assumes "queue q = dq # rest" and "units dq = a # us"
  shows "total_units (q\<lparr>queue := dropUnit h a (queue q), execUnit := x\<rparr>) < total_units q"
  using assms
  by (auto simp: total_units_def dropUnit_def docQueue_delete_def same_identity_def le_imp_less_Suc)

lemma queued_dropUnit: "set (queued (dropUnit h a dqs)) \<subseteq> set (queued dqs)"
  by (auto simp: queued_def dropUnit_def docQueue_delete_def split: list.splits if_splits)

lemma executeNextUnit_frame:
  "\<exists>q' h' new. executeNextUnit e mode (q, h, out) = (q', h', out @ new) \<and>
     (\<forall>ef \<in> set new. \<forall>i. about i ef \<longrightarrow> i \<in> (\<lambda>p. identity (h p)) ` set (queued (queue q))) \<and>
     (\<forall>p. p \<notin> set (queued (queue q)) \<longrightarrow> h' p = h p)"
proof (induction "total_units q" arbitrary: q out mode rule: less_induct)
  case less
  show ?case
  proof (cases "queue q")
    case Nil
    then show ?thesis by (simp add: executeNextUnit.simps)
  next
    case (Cons dq rest)
    show ?thesis
    proof (cases "units dq")
      case Nil
      then show ?thesis using Cons by (simp add: executeNextUnit.simps)
    next
      case (Cons a us)
      note q = \<open>queue q = dq # rest\<close> Cons
      have a_in: "a \<in> set (queued (queue q))"
        using q by (simp add: queued_def)
      from executeNextUnit_step [OF q, of e mode h out]
      show ?thesis
      proof (elim disjE exE conjE)
        fix pre qx
        assume run: "executeNextUnit e mode (q, h, out) = skipUnit e (qx, h, out @ pre)"
          and qx: "queue qx = queue q"
          and pre: "\<forall>ef \<in> set pre. \<forall>i. about i ef \<longrightarrow> i = identity (h a)"
        let ?q1 = "qx\<lparr>queue := dropUnit h a (queue qx), execUnit := Some a\<rparr>"
        let ?c = "ChunkExecStateChanged (u_docId (h a)) (u_chunkId (h a)) ChunkExecCancelled []"
        have skip: "skipUnit e (qx, h, out @ pre) = executeNextUnit e ExprModeNew (?q1, h, (out @ pre) @ [?c])"
          using q qx by (simp add: skipUnit_unfold)
        have "total_units ?q1 < total_units q"
          using total_units_dropUnit [where q = qx and h = h and x = "Some a", of dq rest a us] q qx
          by (simp add: total_units_def)
        from less [OF this, of ExprModeNew "(out @ pre) @ [?c]"]
        obtain q' h' new where
          rec: "executeNextUnit e ExprModeNew (?q1, h, (out @ pre) @ [?c]) = (q', h', ((out @ pre) @ [?c]) @ new)"
          and new: "\<forall>ef \<in> set new. \<forall>i. about i ef \<longrightarrow> i \<in> (\<lambda>p. identity (h p)) ` set (queued (queue ?q1))"
          and frame: "\<forall>p. p \<notin> set (queued (queue ?q1)) \<longrightarrow> h' p = h p"
          by blast
        have sub: "set (queued (queue ?q1)) \<subseteq> set (queued (queue q))"
          using queued_dropUnit [of h a "queue q"] qx by simp
        have "executeNextUnit e mode (q, h, out) = (q', h', out @ (pre @ [?c] @ new))"
          using run skip rec by simp
        moreover have "\<forall>ef \<in> set (pre @ [?c] @ new). \<forall>i. about i ef \<longrightarrow>
            i \<in> (\<lambda>p. identity (h p)) ` set (queued (queue q))"
        proof (intro ballI allI impI)
          fix ef i
          assume ef: "ef \<in> set (pre @ [?c] @ new)" and i: "about i ef"
          from ef consider "ef \<in> set pre" | "ef = ?c" | "ef \<in> set new" by auto
          then show "i \<in> (\<lambda>p. identity (h p)) ` set (queued (queue q))"
          proof cases
            case 1
            with pre i have "i = identity (h a)" by blast
            then show ?thesis using a_in by (simp add: image_iff) blast
          next
            case 2
            with i have "i = identity (h a)" by (simp add: identity_def)
            then show ?thesis using a_in by (simp add: image_iff) blast
          next
            case 3
            with new i have "i \<in> (\<lambda>p. identity (h p)) ` set (queued (queue ?q1))" by blast
            then show ?thesis using image_mono [OF sub] by (rule rev_subsetD)
          qed
        qed
        moreover have "\<forall>p. p \<notin> set (queued (queue q)) \<longrightarrow> h' p = h p"
          using frame sub by auto
        ultimately show ?thesis by (intro exI conjI)
      next
        fix q' h' new
        assume 1: "executeNextUnit e mode (q, h, out) = (q', h', out @ new)"
          and 2: "\<forall>ef \<in> set new. \<forall>i. about i ef \<longrightarrow> i = identity (h a)"
          and 3: "\<forall>p. p \<noteq> a \<longrightarrow> h' p = h p"
        have "\<forall>ef \<in> set new. \<forall>i. about i ef \<longrightarrow>
            i \<in> (\<lambda>p. identity (h p)) ` set (queued (queue q))"
          using 2 a_in by (simp add: image_iff) blast
        moreover have "\<forall>p. p \<notin> set (queued (queue q)) \<longrightarrow> h' p = h p"
          using 3 a_in by auto
        ultimately show ?thesis using 1 by (intro exI conjI)
      qed
    qed
  qed
qed

lemma queued_dropUnit_cases:
  assumes "p \<in> set (queued (dropUnit h a (dq # rest)))"
  shows "(p \<in> set (units dq) \<and> \<not> same_identity (h p) (h a)) \<or> p \<in> set (queued rest)"
  using assms
  by (auto simp: queued_def dropUnit_def docQueue_delete_def split: if_splits)

lemma process_complete_unfold:
  assumes "queue q \<noteq> []" and "\<not> rBusy e" and "execUnit q = Some a" and "\<not> fatalError q"
    and "unit_complete (h a)"
  shows "process e mode (q, h, out) =
     (let incomplete = (mode = ExprModeContinuation \<and> execScope (h a) = ExecScopeChunk);
          w = (q\<lparr>queue := dropUnit h a (queue q), execContext := None, execUnit := None\<rparr>, h,
               out @ (if incomplete
                      then [RError (''Incomplete expression: '' @ executingCode (h a)),
                            ConsoleInput JsonNull (u_chunkId (h a)) (clientId e)]
                      else [])
                   @ [ChunkExecStateChanged (u_docId (h a)) (u_chunkId (h a)) ChunkExecFinished
                        (case execContext q of Some c \<Rightarrow> c_options c | None \<Rightarrow> [])]
                   @ (case execContext q of
                        Some c \<Rightarrow> [CtxDisconnect (c_docId c) (c_chunkId c)]
                      | None \<Rightarrow> []))
      in if incomplete then w else executeNextUnit e mode w)"
  using assms
  by (simp add: process.simps popUnit_eq Let_def del: popUnit.simps split: option.splits)


subsection \<open>Errors of the current unit\<close>










subsection \<open>Failures while a unit is dispatched\<close>

text \<open>
  A unit for an alternate engine whose inner code cannot be read is skipped as the
  spec says: the error is logged, the unit is removed and cancelled, and the next unit
  is dispatched.
\<close>

lemma executeNextUnit_no_inner_code:
  assumes "queue q = dq # rest" and "units dq = a # us"
    and "parseOptions (h a) = (Success, options)"
    and "\<not> (execMode (h a) = ExecModeBatch \<and> \<not> readObject_bool options ''eval'' True)"
    and "readObject_string options ''engine'' ''r'' \<noteq> ''r''"
    and "innerCode (h a) = (Failure msg, code)"
  shows "executeNextUnit e mode (q, h, out) =
     executeNextUnit e ExprModeNew
       (q\<lparr>queue := dropUnit h a (queue q), execUnit := Some a\<rparr>, h,
        out @ [LogError (Failure msg),
               ChunkExecStateChanged (u_docId (h a)) (u_chunkId (h a)) ChunkExecCancelled []])"
proof -
  have "executeNextUnit e mode (q, h, out) = skipUnit e (q, h, out @ [LogError (Failure msg)])"
    using executeNextUnit_unfold [where h = h and a = a, OF assms(1,2,3,6), of e mode out] assms(4,5)
    by (auto simp: Let_def)
  then show ?thesis
    using assms(1,2) by (simp add: skipUnit_unfold)
qed

text \<open>
  C2. Chunk c4, whose options cannot be parsed, is first in the queue and chunk c2
  follows. The failure is logged and c4 is removed and cancelled, and c2 is dispatched.
  But the error of \<^verbatim>\<open>parseOptions\<close> is only tested after the engine branch: c4 is
  first given a context and announced as Started, and its context is never
  disconnected.
\<close>

theorem C2_parse_failure_starts_unit:
  "executeNextUnit ex_env ExprModeNew (ex_waiting [4, 2], ex_store, []) =
     (\<lparr>queue = [ex_docQueue ''d1'' [2]], execUnit = Some 2,
       execContext = Some (ex_context ''c2'' [] False)\<rparr>,
      ex_store(2 := ex_unit ''d1'' ''c2'' [] (Success, [])),
      [LogError (Failure ''bad options''),
       CtxConnect ''d1'' ''c4'',
       ChunkExecStateChanged ''d1'' ''c4'' ChunkExecStarted [],
       ChunkExecStateChanged ''d1'' ''c4'' ChunkExecCancelled [],
       CtxConnect ''d1'' ''c2'',
       ChunkExecStateChanged ''d1'' ''c2'' ChunkExecStarted [],
       CtxExprComplete ''d1'' ''c2'',
       ConsoleInput (JsonString ''1+1'') ''c2'' ''client'',
       NotebookRangeExecuted ''d1'' ''c2'' (0, 4) ExprModeNew ''1+1''])"
  by (simp add: run_simps ex_defs model_defs)

subsection \<open>The end of a chunk inside an expression\<close>

text \<open>
  C3. When \<^verbatim>\<open>process\<close> runs in continuation mode (documents are queued, R is at a
  prompt, and the context reports no error that stops the queue) while the current
  unit has chunk scope and no pending range, it raises one incomplete-expression
  error, submits one empty console input, removes the unit, sends one Finished
  notification, disconnects and drops the context, clears the current unit, and
  returns: the effects are exactly these and no further unit is dispatched.
\<close>

theorem C3_incompleteness_fault:
  assumes "queue q \<noteq> []" and "\<not> rBusy e" and "execUnit q = Some a" and "\<not> fatalError q"
    and "unit_complete (h a)" and "execScope (h a) = ExecScopeChunk"
  shows "process e ExprModeContinuation (q, h, out) =
     (q\<lparr>queue := dropUnit h a (queue q), execContext := None, execUnit := None\<rparr>, h,
      out @ [RError (''Incomplete expression: '' @ executingCode (h a)),
             ConsoleInput JsonNull (u_chunkId (h a)) (clientId e),
             ChunkExecStateChanged (u_docId (h a)) (u_chunkId (h a)) ChunkExecFinished
               (case execContext q of Some c \<Rightarrow> c_options c | None \<Rightarrow> [])]
          @ (case execContext q of
               Some c \<Rightarrow> [CtxDisconnect (c_docId c) (c_chunkId c)]
             | None \<Rightarrow> []))"
  using process_complete_unfold [where h = h and a = a, OF assms(1-5), of ExprModeContinuation out]
    assms(6)
  by (simp add: Let_def)

text \<open>Chunk c1 is current with no range left, and chunk c2 stays queued and unstarted.\<close>

theorem C3_incompleteness_fault_witness:
  "process ex_env ExprModeContinuation (ex_running False, ex_store, []) =
     (\<lparr>queue = [ex_docQueue ''d1'' [2]], execUnit = None, execContext = None\<rparr>, ex_store,
      [RError ''Incomplete expression: f('',
       ConsoleInput JsonNull ''c1'' ''client'',
       ChunkExecStateChanged ''d1'' ''c1'' ChunkExecFinished [],
       CtxDisconnect ''d1'' ''c1''])"
proof -
  have "queue (ex_running False) \<noteq> []" "\<not> rBusy ex_env" "execUnit (ex_running False) = Some 1"
    "\<not> fatalError (ex_running False)" "unit_complete (ex_store 1)"
    "execScope (ex_store 1) = ExecScopeChunk"
    by (simp_all add: ex_defs model_defs)
  then show ?thesis
    using C3_incompleteness_fault [of "ex_running False" ex_env 1 ex_store "[]"]
    by (simp add: ex_defs model_defs)
qed

subsection \<open>Units that are not evaluated\<close>

text \<open>
  The dispatch call at a batch unit whose parsed options hold \<^verbatim>\<open>eval = FALSE\<close>: the
  unit is removed from its document queue, one Cancelled notification is sent for it
  (after the log entry, when parsing also reported an error), and the result is the
  dispatch of the next unit from that state, with the skipped unit as the current one.
  When no unit of a later document queue has the same identity, none of the effects
  that follow in this call is a state notification or an executed range of this unit,
  and the call leaves the unit as it was in the store.
\<close>

lemma skip_eval_false_dispatch:
  assumes "queue q = dq # rest" and "units dq = a # us"
    and "execMode (h a) = ExecModeBatch"
    and "parseOptions (h a) = (err, options)"
    and "map_of options ''eval'' = Some (JsonBool False)"
  shows "executeNextUnit e mode (q, h, out) =
       executeNextUnit e ExprModeNew
         (q\<lparr>queue := dropUnit h a (queue q), execUnit := Some a\<rparr>, h,
          out @ (if err \<noteq> Success then [LogError err] else [])
              @ [ChunkExecStateChanged (u_docId (h a)) (u_chunkId (h a)) ChunkExecCancelled []]) \<and>
     a \<notin> set (units (docQueue_delete h a dq)) \<and>
     ((\<forall>p \<in> set (queued rest). identity (h p) \<noteq> identity (h a)) \<longrightarrow>
        (\<exists>q' h' new.
           executeNextUnit e mode (q, h, out) =
             (q', h',
              out @ (if err \<noteq> Success then [LogError err] else [])
                  @ [ChunkExecStateChanged (u_docId (h a)) (u_chunkId (h a)) ChunkExecCancelled []]
                  @ new) \<and>
           (\<forall>ef \<in> set new. \<not> about (identity (h a)) ef) \<and>
           h' a = h a))"
proof (intro conjI impI)
  let ?q1 = "q\<lparr>queue := dropUnit h a (queue q), execUnit := Some a\<rparr>"
  let ?pre = "(if err \<noteq> Success then [LogError err] else [])
      @ [ChunkExecStateChanged (u_docId (h a)) (u_chunkId (h a)) ChunkExecCancelled []]"
  show skip: "executeNextUnit e mode (q, h, out) = executeNextUnit e ExprModeNew (?q1, h, out @ ?pre)"
    using executeNextUnit_skip [where h = h and a = a, OF assms, of e mode out] .
  show "a \<notin> set (units (docQueue_delete h a dq))"
    by (rule docQueue_delete_removes)
  assume unique: "\<forall>p \<in> set (queued rest). identity (h p) \<noteq> identity (h a)"
  have gone: "\<forall>p \<in> set (queued (queue ?q1)). identity (h p) \<noteq> identity (h a)"
  proof
    fix p
    assume "p \<in> set (queued (queue ?q1))"
    then have "p \<in> set (queued (dropUnit h a (dq # rest)))"
      using assms(1) by simp
    from queued_dropUnit_cases [OF this] show "identity (h p) \<noteq> identity (h a)"
      using unique by (auto simp: same_identity_def identity_def)
  qed
  from executeNextUnit_frame [of e ExprModeNew ?q1 h "out @ ?pre"]
  obtain q' h' new where run: "executeNextUnit e ExprModeNew (?q1, h, out @ ?pre) = (q', h', (out @ ?pre) @ new)"
    and new: "\<forall>ef \<in> set new. \<forall>i. about i ef \<longrightarrow> i \<in> (\<lambda>p. identity (h p)) ` set (queued (queue ?q1))"
    and frame: "\<forall>p. p \<notin> set (queued (queue ?q1)) \<longrightarrow> h' p = h p"
    by blast
  have "executeNextUnit e mode (q, h, out) =
             (q', h',
              out @ (if err \<noteq> Success then [LogError err] else [])
                  @ [ChunkExecStateChanged (u_docId (h a)) (u_chunkId (h a)) ChunkExecCancelled []]
                  @ new)"
    using skip run by simp
  moreover have "\<forall>ef \<in> set new. \<not> about (identity (h a)) ef"
  proof (intro ballI notI)
    fix ef
    assume "ef \<in> set new" and "about (identity (h a)) ef"
    with new have "identity (h a) \<in> (\<lambda>p. identity (h p)) ` set (queued (queue ?q1))"
      by blast
    then obtain p where "p \<in> set (queued (queue ?q1))" and "identity (h a) = identity (h p)"
      by (rule imageE)
    with gone show False by metis
  qed
  moreover have "a \<notin> set (queued (queue ?q1))"
    using gone by blast
  then have "h' a = h a"
    using frame by simp
  ultimately show "\<exists>q' h' new.
           executeNextUnit e mode (q, h, out) =
             (q', h',
              out @ (if err \<noteq> Success then [LogError err] else [])
                  @ [ChunkExecStateChanged (u_docId (h a)) (u_chunkId (h a)) ChunkExecCancelled []]
                  @ new) \<and>
           (\<forall>ef \<in> set new. \<not> about (identity (h a)) ef) \<and>
           h' a = h a"
    by blast
qed

text \<open>
  Chunk c3 of document d1 is skipped and chunk c2 is dispatched in the same call;
  document d2 waits behind with chunk c6.
\<close>

lemma skip_eval_false_dispatch_example:
  "executeNextUnit ex_env ExprModeNew
       (\<lparr>queue = [ex_docQueue ''d1'' [3, 2], ex_docQueue ''d2'' [6]],
         execUnit = None, execContext = None\<rparr>, ex_store, []) =
     (\<lparr>queue = [ex_docQueue ''d1'' [2], ex_docQueue ''d2'' [6]], execUnit = Some 2,
       execContext = Some (ex_context ''c2'' [] False)\<rparr>,
      ex_store(2 := ex_unit ''d1'' ''c2'' [] (Success, [])),
      [ChunkExecStateChanged ''d1'' ''c3'' ChunkExecCancelled [],
       CtxConnect ''d1'' ''c2'',
       ChunkExecStateChanged ''d1'' ''c2'' ChunkExecStarted [],
       CtxExprComplete ''d1'' ''c2'',
       ConsoleInput (JsonString ''1+1'') ''c2'' ''client'',
       NotebookRangeExecuted ''d1'' ''c2'' (0, 4) ExprModeNew ''1+1'']) \<and>
   list_all (\<lambda>p. identity (ex_store p) \<noteq> identity (ex_store 3))
     (queued [ex_docQueue ''d2'' [6]])"
proof -
  let ?q = "\<lparr>queue = [ex_docQueue ''d1'' [3, 2], ex_docQueue ''d2'' [6]],
         execUnit = None, execContext = None\<rparr>"
  have "queue ?q = ex_docQueue ''d1'' [3, 2] # [ex_docQueue ''d2'' [6]]"
    "units (ex_docQueue ''d1'' [3, 2]) = 3 # [2]"
    "execMode (ex_store 3) = ExecModeBatch"
    "parseOptions (ex_store 3) = (Success, [(''eval'', JsonBool False)])"
    "map_of [(''eval'', JsonBool False)] ''eval'' = Some (JsonBool False)"
    by (simp_all add: ex_defs)
  from skip_eval_false_dispatch [where h = ex_store and a = 3, OF this, of ex_env ExprModeNew "[]"]
  show ?thesis
    by (simp add: run_simps ex_defs model_defs)
qed

text \<open>
  C4. A unit that was skipped is run afterwards. \<^verbatim>\<open>skipUnit\<close> makes the skipped unit
  the current one to send its notification and never clears it, and the dispatch that
  follows replaces it only when it finds a unit to start. A request to execute chunk
  c3 (\<^verbatim>\<open>eval = FALSE\<close>) alone cancels it and leaves it as the current unit of a queue
  with no document. A request for chunk c2 then reaches the same queue object, and
  \<^verbatim>\<open>process\<close> submits the range of c3 to the console; at the next prompt c3 is
  reported Finished, and only then c2 is started.
\<close>

theorem C4_skipped_unit_is_run:
  "executeNotebookChunks ex_env (ex_docQueue ''d1'' [3]) (None, ex_store, []) =
     (Some \<lparr>queue = [], execUnit = Some 3, execContext = None\<rparr>, ex_store,
      [ChunkExecStateChanged ''d1'' ''c3'' ChunkExecCancelled []]) \<and>
   onConsolePrompt ex_env ''> ''
       (executeNotebookChunks ex_env (ex_docQueue ''d1'' [2])
          (executeNotebookChunks ex_env (ex_docQueue ''d1'' [3]) (None, ex_store, []))) =
     (Some \<lparr>queue = [ex_docQueue ''d1'' [2]], execUnit = Some 2,
            execContext = Some (ex_context ''c2'' [] False)\<rparr>,
      ex_store(3 := ex_unit ''d1'' ''c3'' [] (Success, [(''eval'', JsonBool False)]),
               2 := ex_unit ''d1'' ''c2'' [] (Success, [])),
      [ChunkExecStateChanged ''d1'' ''c3'' ChunkExecCancelled [],
       ConsoleInput (JsonString ''2+2'') ''c3'' ''client'',
       NotebookRangeExecuted ''d1'' ''c3'' (5, 9) ExprModeNew ''2+2'',
       ChunkExecStateChanged ''d1'' ''c3'' ChunkExecFinished [],
       CtxConnect ''d1'' ''c2'',
       ChunkExecStateChanged ''d1'' ''c2'' ChunkExecStarted [],
       CtxExprComplete ''d1'' ''c2'',
       ConsoleInput (JsonString ''1+1'') ''c2'' ''client'',
       NotebookRangeExecuted ''d1'' ''c2'' (0, 4) ExprModeNew ''1+1''])"
  by (simp add: run_simps ex_defs model_defs)

subsection \<open>The completion of an alternate engine\<close>

text \<open>
  C5. On a chunk-execution-completed notification: when a unit is current, its
  document id and chunk id are those of the notification and no context is attached,
  the unit is removed from the head document queue, one Finished notification is
  sent, the current unit is cleared and \<^verbatim>\<open>process\<close> runs in the mode of a new
  expression; in every other case nothing changes.
\<close>

theorem C5_completion_bridge:
  "(execUnit q = Some a \<and> u_docId (h a) = docId \<and> u_chunkId (h a) = chunkId \<and>
    execContext q = None \<longrightarrow>
      onChunkExecCompleted e docId chunkId nbCtxId (q, h, out) =
        process e ExprModeNew
          (q\<lparr>queue := dropUnit h a (queue q), execUnit := None\<rparr>, h,
           out @ [ChunkExecStateChanged docId chunkId ChunkExecFinished []])) \<and>
   (execUnit q = None \<or> execContext q \<noteq> None \<or>
    (\<exists>b. execUnit q = Some b \<and> (u_docId (h b) \<noteq> docId \<or> u_chunkId (h b) \<noteq> chunkId)) \<longrightarrow>
      onChunkExecCompleted e docId chunkId nbCtxId (q, h, out) = (q, h, out))"
  by (auto simp: popUnit_eq simp del: popUnit.simps split: option.splits)

text \<open>
  The completion of chunk c5 finishes it and dispatches chunk c2; a notification for
  another chunk, one that arrives while a unit runs on the R engine, and one that
  arrives while no unit is current change nothing.
\<close>

theorem C5_completion_bridge_witness:
  "onChunkExecCompleted ex_env ''d1'' ''c5'' ''saved'' (ex_alternate, ex_store, []) =
     (\<lparr>queue = [ex_docQueue ''d1'' [2]], execUnit = Some 2,
       execContext = Some (ex_context ''c2'' [] False)\<rparr>,
      ex_store(2 := ex_unit ''d1'' ''c2'' [] (Success, [])),
      [ChunkExecStateChanged ''d1'' ''c5'' ChunkExecFinished [],
       CtxConnect ''d1'' ''c2'',
       ChunkExecStateChanged ''d1'' ''c2'' ChunkExecStarted [],
       CtxExprComplete ''d1'' ''c2'',
       ConsoleInput (JsonString ''1+1'') ''c2'' ''client'',
       NotebookRangeExecuted ''d1'' ''c2'' (0, 4) ExprModeNew ''1+1'']) \<and>
   onChunkExecCompleted ex_env ''d1'' ''c2'' ''saved'' (ex_alternate, ex_store, []) =
     (ex_alternate, ex_store, []) \<and>
   onChunkExecCompleted ex_env ''d1'' ''c1'' ''saved'' (ex_running False, ex_store, []) =
     (ex_running False, ex_store, []) \<and>
   onChunkExecCompleted ex_env ''d1'' ''c1'' ''saved'' (ex_waiting [1, 2], ex_store, []) =
     (ex_waiting [1, 2], ex_store, [])"
proof -
  have m: "execUnit ex_alternate = Some 5 \<and> u_docId (ex_store 5) = ''d1'' \<and>
      u_chunkId (ex_store 5) = ''c5'' \<and> execContext ex_alternate = None"
    by (simp add: ex_defs)
  have n: "execUnit ex_alternate = Some 5 \<and> u_chunkId (ex_store 5) \<noteq> ''c2''"
    by (simp add: ex_defs)
  have r: "execContext (ex_running False) \<noteq> None"
    by (simp add: ex_defs)
  have w: "execUnit (ex_waiting [1, 2]) = None"
    by (simp add: ex_defs)
  show ?thesis
    using m n r w
      C5_completion_bridge [of ex_alternate 5 ex_store "''d1''" "''c5''" ex_env "''saved''" "[]"]
      C5_completion_bridge [of ex_alternate 5 ex_store "''d1''" "''c2''" ex_env "''saved''" "[]"]
      C5_completion_bridge [of "ex_running False" 1 ex_store "''d1''" "''c1''" ex_env "''saved''" "[]"]
      C5_completion_bridge [of "ex_waiting [1, 2]" 1 ex_store "''d1''" "''c1''" ex_env "''saved''" "[]"]
    by (simp add: run_simps ex_defs model_defs)
qed

subsection \<open>The order of execution\<close>

lemma lifecycle_append: "lifecycle (xs @ ys) = lifecycle xs @ lifecycle ys"
  by (induction xs rule: lifecycle.induct) simp_all


lemma visited_store:
  "\<forall>p. identity (h' p) = identity (h p) \<Longrightarrow> visited h' us = visited h us"
proof (induction h us rule: visited.induct)
  case (1 h)
  show ?case by simp
next
  case (2 h a us)
  have "\<And>b. same_identity (h' b) (h' a) = same_identity (h b) (h a)"
    using "2.prems" by (simp add: same_identity_def identity_def)
  then show ?case using 2 by simp
qed

lemma subseq_visited: "subseq (visited h us) us"
proof (induction h us rule: visited.induct)
  case (1 h)
  show ?case by simp
next
  case (2 h a us)
  have "subseq (filter (\<lambda>b. \<not> same_identity (h b) (h a)) us) us"
    by simp
  with 2 have "subseq (visited h (filter (\<lambda>b. \<not> same_identity (h b) (h a)) us)) us"
    by (rule subseq_order.trans)
  then show ?case by simp
qed

lemma subseq_schedule: "subseq (schedule h dqs) (queued dqs)"
  by (induction dqs) (simp_all add: schedule_def queued_def subseq_visited list_emb_append_mono)

lemma visited_distinct:
  "distinct (map (\<lambda>p. identity (h p)) us) \<Longrightarrow> visited h us = us"
proof (induction us)
  case Nil
  show ?case by simp
next
  case (Cons a us)
  then have "\<forall>b \<in> set us. \<not> same_identity (h b) (h a)"
    by (auto simp: same_identity_def identity_def image_iff)
  then have "filter (\<lambda>b. \<not> same_identity (h b) (h a)) us = us"
    by (simp add: filter_id_conv)
  then show ?case using Cons by simp
qed

lemma schedule_distinct:
  "\<forall>dq \<in> set dqs. distinct (map (\<lambda>p. identity (h p)) (units dq)) \<Longrightarrow> schedule h dqs = queued dqs"
  by (induction dqs) (simp_all add: schedule_def queued_def visited_distinct)

lemma schedule_dropUnit:
  assumes "units dq = a # us"
  shows "schedule h (dropUnit h a (dq # rest)) = tl (schedule h (dq # rest))"
  using assms by (simp add: schedule_def dropUnit_def docQueue_delete_def same_identity_def)

lemma orderly_store:
  assumes "\<forall>p. identity (h' p) = identity (h p)" and "\<forall>p. runs_clean (h' p) = runs_clean (h p)"
  shows "orderly E seen q h' = orderly E seen q h"
proof -
  have "expected h' = expected h"
    using assms(1) by (intro ext) (simp add: expected_def)
  moreover have "schedule h' = schedule h"
    using visited_store [OF assms(1)] by (intro ext) (simp add: schedule_def)
  ultimately show ?thesis
    using assms by (simp add: orderly_def cong: option.case_cong)
qed

lemma executeCurrentUnit_quiet:
  assumes "execUnit q = Some a"
  shows "\<exists>h' new. executeCurrentUnit e mode (q, h, out) = (q, h', out @ new) \<and>
     lifecycle new = [] \<and>
     (\<forall>p. identity (h' p) = identity (h p)) \<and> (\<forall>p. runs_clean (h' p) = runs_clean (h p))"
  using assms
  by (auto simp: popExecRange_def identity_def runs_clean_def Let_def
      split: option.splits list.splits prod.splits)

lemma expected_Cons:
  "expected h (a # ps) =
     (ChunkExecStarted, identity (h a)) # (ChunkExecFinished, identity (h a)) # expected h ps"
  by (simp add: expected_def)


lemma executeNextUnit_orderly:
  assumes "orderly E seen q h" and "execUnit q = None" and "engine_succeeds e"
  shows "\<exists>q' h' new. executeNextUnit e mode (q, h, out) = (q', h', out @ new) \<and>
           orderly E (seen @ lifecycle new) q' h'"
proof (cases "queue q")
  case Nil
  then have "executeNextUnit e mode (q, h, out) = (q, h, out @ [])"
    by (simp add: executeNextUnit.simps)
  then show ?thesis using assms(1) by (metis append_Nil2 lifecycle.simps(1))
next
  case (Cons dq rest)
  note q = this
  show ?thesis
  proof (cases "units dq")
    case Nil
    then have "executeNextUnit e mode (q, h, out) = (q, h, out @ [])"
      using q by (simp add: executeNextUnit.simps)
    then show ?thesis using assms(1) by (metis append_Nil2 lifecycle.simps(1))
  next
    case (Cons a us)
    note dq = this
    obtain err options where po: "parseOptions (h a) = (err, options)"
      by (cases "parseOptions (h a)")
    obtain err2 code where ic: "innerCode (h a) = (err2, code)"
      by (cases "innerCode (h a)")
    note unf = executeNextUnit_unfold [where h = h and a = a, OF q dq po ic, of e mode out]
    have clean: "runs_clean (h a)"
      using assms(1) q dq by (simp add: orderly_def queued_def)
    have err: "err = Success"
      and noskip: "\<not> (execMode (h a) = ExecModeBatch \<and> \<not> readObject_bool options ''eval'' True)"
      and alt: "readObject_string options ''engine'' ''r'' \<noteq> ''r'' \<Longrightarrow> err2 = Success"
      using clean po ic by (auto simp: runs_clean_def)
    have idle: "execContext q = None" "seen @ expected h (schedule h (queue q)) = E"
      using assms(1,2) by (simp_all add: orderly_def)
    have qd: "schedule h (queue q) =
        a # visited h (filter (\<lambda>b. \<not> same_identity (h b) (h a)) us) @ schedule h rest"
      using q dq by (simp add: schedule_def)
    have base: "\<forall>p \<in> set (queued (queue q)). runs_clean (h p)"
      using assms(1) by (simp add: orderly_def)
    define ctx where "ctx = (if commitMode dq = ModeCommitted then kSavedCtx e else notebookCtxId e)"
    define engine where "engine = readObject_string options ''engine'' ''r''"
    let ?started = "ChunkExecStateChanged (u_docId (h a)) (u_chunkId (h a)) ChunkExecStarted options"
    show ?thesis
    proof (cases "engine = ''r''")
      case True
      let ?qx = "q\<lparr>execContext := Some
                        \<lparr>c_docId = u_docId (h a), c_chunkId = u_chunkId (h a),
                         c_nbCtxId = ctx, c_execScope = execScope (h a),
                         c_options = options, c_pixelWidth = pixelWidth dq,
                         c_charWidth = charWidth dq, hasErrors = False\<rparr>,
                      execUnit := Some a\<rparr>"
      let ?pre = "[CtxConnect (u_docId (h a)) (u_chunkId (h a)), ?started]"
      have run: "executeNextUnit e mode (q, h, out) =
          executeCurrentUnit e ExprModeNew (?qx, h, out @ ?pre)"
        using unf True err noskip by (auto simp: Let_def engine_def ctx_def)
      have "execUnit ?qx = Some a" by simp
      from executeCurrentUnit_quiet [OF this, of e ExprModeNew h "out @ ?pre"]
      obtain h' new where
        cur: "executeCurrentUnit e ExprModeNew (?qx, h, out @ ?pre) = (?qx, h', (out @ ?pre) @ new)"
        and quiet: "lifecycle new = []"
        and same: "\<forall>p. identity (h' p) = identity (h p)" "\<forall>p. runs_clean (h' p) = runs_clean (h p)"
        by blast
      have "orderly E (seen @ [(ChunkExecStarted, identity (h a))]) ?qx h"
        using base idle q dq qd by (simp add: orderly_def expected_Cons)
      then have "orderly E (seen @ [(ChunkExecStarted, identity (h a))]) ?qx h'"
        using orderly_store [OF same] by simp
      moreover have "lifecycle (?pre @ new) = [(ChunkExecStarted, identity (h a))]"
        using quiet by (simp add: lifecycle_append identity_def)
      ultimately have "orderly E (seen @ lifecycle (?pre @ new)) ?qx h'"
        by simp
      moreover have "executeNextUnit e mode (q, h, out) = (?qx, h', out @ (?pre @ new))"
        using run cur by simp
      ultimately show ?thesis by blast
    next
      case False
      let ?qx = "q\<lparr>execUnit := Some a\<rparr>"
      let ?pre = "[?started, AlternateEngineExec (u_docId (h a)) (u_chunkId (h a)) ctx engine code options]"
      have "executeAlternateEngineChunk e (u_docId (h a)) (u_chunkId (h a)) ctx engine code options = Success"
        using assms(3) by (simp add: engine_succeeds_def)
      then have run: "executeNextUnit e mode (q, h, out) = (?qx, h, out @ ?pre)"
        using unf False err noskip alt by (auto simp: Let_def engine_def ctx_def)
      have "orderly E (seen @ [(ChunkExecStarted, identity (h a))]) ?qx h"
        using base idle q dq qd by (simp add: orderly_def expected_Cons)
      then have "orderly E (seen @ lifecycle ?pre) ?qx h"
        by (simp add: identity_def)
      then show ?thesis using run by blast
    qed
  qed
qed


lemma orderly_finished:
  assumes "orderly E seen q h" and "execUnit q = Some a"
  shows "orderly E (seen @ [(ChunkExecFinished, identity (h a))])
           (q\<lparr>queue := dropUnit h a (queue q), execContext := None, execUnit := None\<rparr>) h"
proof -
  from assms obtain dq rest us where q: "queue q = dq # rest" and dq: "units dq = a # us"
    and E: "seen @ tl (expected h (schedule h (queue q))) = E"
    by (auto simp: orderly_def)
  have "\<forall>p \<in> set (queued (queue q)). runs_clean (h p)"
    using assms(1) by (simp add: orderly_def)
  then have clean: "\<forall>p \<in> set (queued (dropUnit h a (queue q))). runs_clean (h p)"
    using queued_dropUnit [of h a "queue q"] by blast
  have "schedule h (queue q) =
      a # visited h (filter (\<lambda>b. \<not> same_identity (h b) (h a)) us) @ schedule h rest"
    using q dq by (simp add: schedule_def)
  then have "tl (expected h (schedule h (queue q))) =
      (ChunkExecFinished, identity (h a)) # expected h (tl (schedule h (queue q)))"
    by (simp add: expected_Cons)
  then have "(seen @ [(ChunkExecFinished, identity (h a))]) @
      expected h (schedule h (dropUnit h a (queue q))) = E"
    using E q schedule_dropUnit [OF dq, of h rest] by simp
  then show ?thesis
    using clean by (simp add: orderly_def)
qed

lemma process_orderly:
  assumes "orderly E seen q h" and "engine_succeeds e"
  shows "\<exists>q' h' new. process e mode (q, h, out) = (q', h', out @ new) \<and>
           orderly E (seen @ lifecycle new) q' h'"
proof -
  have same: "process e mode (q, h, out) = (q, h, out) \<Longrightarrow> ?thesis"
    using assms(1) by (metis append_Nil2 lifecycle.simps(1))
  consider (idle) "queue q = [] \<or> rBusy e"
    | (dispatch) "queue q \<noteq> []" "\<not> rBusy e" "execUnit q = None"
    | (finished) a where "queue q \<noteq> []" "\<not> rBusy e" "execUnit q = Some a" "unit_complete (h a)"
    | (more) a where "queue q \<noteq> []" "\<not> rBusy e" "execUnit q = Some a" "\<not> unit_complete (h a)"
    by (cases "execUnit q") auto
  then show ?thesis
  proof cases
    case idle
    then show ?thesis using same by (auto simp: process.simps)
  next
    case dispatch
    then have "process e mode (q, h, out) = executeNextUnit e mode (q, h, out)"
      by (simp add: process.simps)
    then show ?thesis
      using executeNextUnit_orderly [OF assms(1) dispatch(3) assms(2), of mode out] by simp
  next
    case finished
    have nofatal: "\<not> fatalError q"
      using assms(1) finished(3) by (auto simp: orderly_def fatalError_def split: option.splits)
    define incomplete where "incomplete = (mode = ExprModeContinuation \<and> execScope (h a) = ExecScopeChunk)"
    define new where "new = (if incomplete
                      then [RError (''Incomplete expression: '' @ executingCode (h a)),
                            ConsoleInput JsonNull (u_chunkId (h a)) (clientId e)]
                      else [])
                   @ [ChunkExecStateChanged (u_docId (h a)) (u_chunkId (h a)) ChunkExecFinished
                        (case execContext q of Some c \<Rightarrow> c_options c | None \<Rightarrow> [])]
                   @ (case execContext q of
                        Some c \<Rightarrow> [CtxDisconnect (c_docId c) (c_chunkId c)]
                      | None \<Rightarrow> [])"
    define q5 where "q5 = q\<lparr>queue := dropUnit h a (queue q), execContext := None, execUnit := None\<rparr>"
    have unf: "process e mode (q, h, out) =
        (if incomplete then (q5, h, out @ new) else executeNextUnit e mode (q5, h, out @ new))"
      using process_complete_unfold [where h = h and a = a, OF finished(1,2,3) nofatal finished(4), of mode out]
      by (simp add: Let_def incomplete_def new_def q5_def)
    have life: "lifecycle new = [(ChunkExecFinished, identity (h a))]"
      by (simp add: new_def lifecycle_append identity_def split: option.splits)
    have ord: "orderly E (seen @ lifecycle new) q5 h"
      using orderly_finished [OF assms(1) finished(3)] life by (simp add: q5_def)
    show ?thesis
    proof (cases incomplete)
      case True
      then show ?thesis using unf ord by auto
    next
      case False
      have "execUnit q5 = None" by (simp add: q5_def)
      from executeNextUnit_orderly [OF ord this assms(2), of mode "out @ new"]
      obtain q' h' new' where
        "executeNextUnit e mode (q5, h, out @ new) = (q', h', (out @ new) @ new')"
        "orderly E ((seen @ lifecycle new) @ lifecycle new') q' h'"
        by blast
      then have "process e mode (q, h, out) = (q', h', out @ (new @ new'))"
        "orderly E (seen @ lifecycle (new @ new')) q' h'"
        using unf False by (simp_all add: lifecycle_append)
      then show ?thesis by blast
    qed
  next
    case more
    have nofatal: "\<not> fatalError q"
      using assms(1) more(3) by (auto simp: orderly_def fatalError_def split: option.splits)
    then have run: "process e mode (q, h, out) = executeCurrentUnit e mode (q, h, out)"
      using more by (simp add: process.simps del: executeCurrentUnit.simps)
    from executeCurrentUnit_quiet [where h = h, OF more(3), of e mode out]
    obtain h' new where cur: "executeCurrentUnit e mode (q, h, out) = (q, h', out @ new)"
      and quiet: "lifecycle new = []"
      and keep: "\<forall>p. identity (h' p) = identity (h p)" "\<forall>p. runs_clean (h' p) = runs_clean (h p)"
      by blast
    have "process e mode (q, h, out) = (q, h', out @ new)"
      using run cur by (simp only:)
    moreover have "orderly E (seen @ lifecycle new) q h'"
      using assms(1) orderly_store [OF keep] quiet by simp
    ultimately show ?thesis by blast
  qed
qed


lemma onChunkExecCompleted_orderly:
  assumes "orderly E seen q h" and "engine_succeeds e"
  shows "\<exists>q' h' new. onChunkExecCompleted e docId chunkId nbCtxId (q, h, out) = (q', h', out @ new) \<and>
           orderly E (seen @ lifecycle new) q' h'"
proof (cases "\<exists>a. execUnit q = Some a \<and> u_docId (h a) = docId \<and> u_chunkId (h a) = chunkId \<and>
    execContext q = None")
  case True
  then obtain a where a: "execUnit q = Some a" "u_docId (h a) = docId" "u_chunkId (h a) = chunkId"
    "execContext q = None"
    by blast
  let ?fin = "ChunkExecStateChanged docId chunkId ChunkExecFinished []"
  let ?q1 = "q\<lparr>queue := dropUnit h a (queue q), execContext := None, execUnit := None\<rparr>"
  have eq: "q\<lparr>queue := dropUnit h a (queue q), execUnit := None\<rparr> = ?q1"
    using a(4) by (cases q) simp
  have "onChunkExecCompleted e docId chunkId nbCtxId (q, h, out) =
      process e ExprModeNew (q\<lparr>queue := dropUnit h a (queue q), execUnit := None\<rparr>, h, out @ [?fin])"
    using a by (simp add: popUnit_eq del: popUnit.simps)
  then have run: "onChunkExecCompleted e docId chunkId nbCtxId (q, h, out) =
      process e ExprModeNew (?q1, h, out @ [?fin])"
    by (simp only: eq)
  have "orderly E (seen @ lifecycle [?fin]) ?q1 h"
    using orderly_finished [OF assms(1) a(1)] a(2,3) by (simp add: identity_def)
  from process_orderly [OF this assms(2), of ExprModeNew "out @ [?fin]"]
  obtain q' h' new where "process e ExprModeNew (?q1, h, out @ [?fin]) = (q', h', (out @ [?fin]) @ new)"
    "orderly E ((seen @ lifecycle [?fin]) @ lifecycle new) q' h'"
    by blast
  then have "onChunkExecCompleted e docId chunkId nbCtxId (q, h, out) = (q', h', out @ (?fin # new))"
    "orderly E (seen @ lifecycle (?fin # new)) q' h'"
    using run by simp_all
  then show ?thesis by blast
next
  case False
  then have "onChunkExecCompleted e docId chunkId nbCtxId (q, h, out) = (q, h, out @ [])"
    by (auto split: option.splits)
  then show ?thesis using assms(1) by (metis append_Nil2 lifecycle.simps(1))
qed

lemma orderly_prefix: "orderly E seen q h \<Longrightarrow> prefix seen E"
  by (auto simp: orderly_def prefix_def split: option.splits)

lemma deliver_orderly:
  assumes "orderly E seen q h" and "engine_succeeds e"
  shows "\<exists>s' h' new. deliver e s (Some q, h, out) = (s', h', out @ new) \<and>
           (case s' of
              None \<Rightarrow> prefix (seen @ lifecycle new) E
            | Some q' \<Rightarrow> orderly E (seen @ lifecycle new) q' h')"
proof (cases s)
  case (ConsolePromptShown prompt)
  from process_orderly [OF assms, of "if prompt = ''+ '' then ExprModeContinuation else ExprModeNew" out]
  obtain q' h' new where p: "NotebookQueue_onConsolePrompt e prompt (q, h, out) = (q', h', out @ new)"
    and o: "orderly E (seen @ lifecycle new) q' h'"
    by (auto simp: NotebookQueue_onConsolePrompt_def)
  show ?thesis
  proof (cases "NotebookQueue_complete q'")
    case True
    then have "deliver e s (Some q, h, out) = (None, h', out @ (new @ [ThreadQuit]))"
      using ConsolePromptShown p by simp
    moreover have "prefix (seen @ lifecycle (new @ [ThreadQuit])) E"
      using orderly_prefix [OF o] by (simp add: lifecycle_append)
    ultimately show ?thesis by fastforce
  next
    case False
    then have "deliver e s (Some q, h, out) = (Some q', h', out @ new)"
      using ConsolePromptShown p by simp
    then show ?thesis using o by fastforce
  qed
next
  case (ChunkExecutionCompleted docId chunkId nbCtxId)
  from onChunkExecCompleted_orderly [OF assms, of docId chunkId nbCtxId out]
  obtain q' h' new where "onChunkExecCompleted e docId chunkId nbCtxId (q, h, out) = (q', h', out @ new)"
    and "orderly E (seen @ lifecycle new) q' h'"
    by blast
  then have "deliver e s (Some q, h, out) = (Some q', h', out @ new)"
    "orderly E (seen @ lifecycle new) q' h'"
    using ChunkExecutionCompleted by (simp_all del: onChunkExecCompleted.simps)
  then show ?thesis by fastforce
qed

lemma run_None: "run sigs (None, h, out) = (None, h, out)"
proof (induction sigs)
  case Nil
  show ?case by simp
next
  case (Cons x sigs)
  obtain e s where "x = (e, s)" by (cases x)
  then show ?case using Cons by (cases s) simp_all
qed

lemma run_orderly:
  assumes "\<forall>(e, s) \<in> set sigs. engine_succeeds e" and "orderly E seen q h"
  shows "\<exists>s' h' new. run sigs (Some q, h, out) = (s', h', out @ new) \<and>
           prefix (seen @ lifecycle new) E"
  using assms
proof (induction sigs arbitrary: q h out seen)
  case Nil
  then have "run [] (Some q, h, out) = (Some q, h, out @ [])" "prefix (seen @ lifecycle []) E"
    using orderly_prefix by simp_all
  then show ?case by blast
next
  case (Cons x sigs)
  obtain e s where x: "x = (e, s)" by (cases x)
  then have e: "engine_succeeds e" and rest: "\<forall>(e, s) \<in> set sigs. engine_succeeds e"
    using Cons.prems(1) by auto
  from deliver_orderly [OF Cons.prems(2) e, of s out]
  obtain s1 h1 new1 where d: "deliver e s (Some q, h, out) = (s1, h1, out @ new1)"
    and o: "case s1 of None \<Rightarrow> prefix (seen @ lifecycle new1) E
             | Some q' \<Rightarrow> orderly E (seen @ lifecycle new1) q' h1"
    by blast
  show ?case
  proof (cases s1)
    case None
    then have "run (x # sigs) (Some q, h, out) = (None, h1, out @ new1)"
      using x d by (simp add: run_None del: deliver.simps)
    then show ?thesis using o None by auto
  next
    case (Some q1)
    then have "orderly E (seen @ lifecycle new1) q1 h1"
      using o by simp
    from Cons.IH [OF rest this, of "out @ new1"]
    obtain s' h' new where "run sigs (Some q1, h1, out @ new1) = (s', h', (out @ new1) @ new)"
      "prefix ((seen @ lifecycle new1) @ lifecycle new) E"
      by blast
    then have "run (x # sigs) (Some q, h, out) = (s', h', out @ (new1 @ new))"
      "prefix (seen @ lifecycle (new1 @ new)) E"
      using x d Some by (simp_all add: lifecycle_append del: deliver.simps)
    then show ?thesis by blast
  qed
qed


text \<open>
  C6. A run of readiness signals (console prompts and completions of the alternate
  engine, each in its own environment) from a state with no current unit, in which no
  queued unit is skipped or fails, the alternate engine reports no error and no
  context reports one. The state notifications the run sends are a beginning of:
  Started and Finished of the first unit of the first document queue, Started and
  Finished of the next unit that runs, and so on through that queue, then the same
  for the next document queue. The units that run are taken from the queued units in
  their order, and they are all of them when the identities within each document
  queue differ. So the units of a document finish in queue order, each unit starts
  only after the one before it has finished, and no unit of a later document starts
  before the last unit of the document before it has finished.
\<close>

theorem C6_ordering:
  assumes "execUnit q = None" and "execContext q = None"
    and "\<forall>p \<in> set (queued (queue q)). runs_clean (h p)"
    and "\<forall>(e, s) \<in> set signals. engine_succeeds e"
  shows "(\<exists>s' h' new. run signals (Some q, h, out) = (s', h', out @ new) \<and>
            prefix (lifecycle new) (expected h (schedule h (queue q)))) \<and>
         subseq (schedule h (queue q)) (queued (queue q)) \<and>
         ((\<forall>dq \<in> set (queue q). distinct (map (\<lambda>p. identity (h p)) (units dq))) \<longrightarrow>
            schedule h (queue q) = queued (queue q))"
proof -
  have "orderly (expected h (schedule h (queue q))) [] q h"
    using assms(1-3) by (simp add: orderly_def)
  from run_orderly [OF assms(4) this, of out] show ?thesis
    by (simp add: subseq_schedule schedule_distinct)
qed

text \<open>
  Two documents, three chunks, one of them on the alternate engine: the run sends the
  six notifications in the expected order and the queue is then discarded.
\<close>

theorem C6_ordering_witness:
  "lifecycle (snd (snd (run ex_signals (Some ex_two_documents, ex_store, [])))) =
     [(ChunkExecStarted, ''d1'', ''c2''), (ChunkExecFinished, ''d1'', ''c2''),
      (ChunkExecStarted, ''d1'', ''c5''), (ChunkExecFinished, ''d1'', ''c5''),
      (ChunkExecStarted, ''d2'', ''c6''), (ChunkExecFinished, ''d2'', ''c6'')] \<and>
   prefix (lifecycle (snd (snd (run ex_signals (Some ex_two_documents, ex_store, [])))))
     (expected ex_store (queued (queue ex_two_documents)))"
proof -
  have "execUnit ex_two_documents = None" "execContext ex_two_documents = None"
    "\<forall>p \<in> set (queued (queue ex_two_documents)). runs_clean (ex_store p)"
    "\<forall>(e, s) \<in> set ex_signals. engine_succeeds e"
    by (simp_all add: ex_defs model_defs runs_clean_def engine_succeeds_def)
  moreover have "\<forall>dq \<in> set (queue ex_two_documents).
      distinct (map (\<lambda>p. identity (ex_store p)) (units dq))"
    by (simp add: ex_defs model_defs)
  ultimately have "prefix (lifecycle (snd (snd (run ex_signals (Some ex_two_documents, ex_store, [])))))
     (expected ex_store (queued (queue ex_two_documents)))"
    using C6_ordering [of ex_two_documents ex_store ex_signals "[]"]
    by auto
  moreover have "lifecycle (snd (snd (run ex_signals (Some ex_two_documents, ex_store, [])))) =
     [(ChunkExecStarted, ''d1'', ''c2''), (ChunkExecFinished, ''d1'', ''c2''),
      (ChunkExecStarted, ''d1'', ''c5''), (ChunkExecFinished, ''d1'', ''c5''),
      (ChunkExecStarted, ''d2'', ''c6''), (ChunkExecFinished, ''d2'', ''c6'')]"
    by (simp add: run_simps ex_defs model_defs Let_def)
  ultimately show ?thesis by simp
qed

subsection \<open>Discarding the global queue\<close>

text \<open>
  \<^verbatim>\<open>complete\<close> is the test that no document queue is left: after the advance of a
  console prompt the global queue is discarded exactly when its list of document
  queues is empty, whatever the current unit is.
\<close>

lemma onConsolePrompt_discards:
  "(fst (onConsolePrompt e prompt (Some q, h, out)) = None \<longrightarrow>
      queue (fst (NotebookQueue_onConsolePrompt e prompt (q, h, out))) = []) \<and>
   (queue q = [] \<longrightarrow>
      onConsolePrompt e prompt (Some q, h, out) = (None, h, out @ [ThreadQuit]))"
  by (auto simp: NotebookQueue_complete_def NotebookQueue_onConsolePrompt_def process.simps
      split: prod.splits if_splits)

text \<open>
  A document queue without units at the head of the list is never removed:
  \<^verbatim>\<open>executeNextUnit\<close> returns at it, and \<^verbatim>\<open>popUnit\<close>, which drops a document queue
  that has become empty, runs only for a unit. With no current unit, no console prompt
  and no completion notification changes anything from then on: the global queue is
  not discarded and the documents behind are never started.
\<close>

lemma empty_document_queue_stalls:
  assumes "queue q = dq # rest" and "units dq = []" and "execUnit q = None"
  shows "run sigs (Some q, h, out) = (Some q, h, out)"
proof (induction sigs)
  case Nil
  show ?case by simp
next
  case (Cons es sigs)
  obtain e s where es: "es = (e, s)" by (cases es)
  have "deliver e s (Some q, h, out) = (Some q, h, out)"
    using assms
    by (cases s)
      (simp_all add: NotebookQueue_onConsolePrompt_def NotebookQueue_complete_def
        process.simps executeNextUnit.simps)
  then show ?case using Cons es by simp
qed

text \<open>
  C7. The global queue is kept when all is finished, and discarded while a unit is
  current. A request to execute a document with no unit leaves a global queue whose
  only document queue is empty, with no current unit and no context: all document
  queues are empty and no unit is active, yet the console-prompt handler does not
  discard the queue, and a document requested after it (d2 with chunk c6) is not
  started at the next prompt. And the prompt that skips chunk c3 discards the global
  queue although \<^verbatim>\<open>process\<close> returned with c3 as the current unit, which
  \<^verbatim>\<open>skipUnit\<close> never clears.
\<close>

theorem C7_teardown_defects:
  "executeNotebookChunks ex_env (ex_docQueue ''d1'' []) (None, ex_store, []) =
     (Some (ex_waiting []), ex_store, []) \<and>
   list_all (\<lambda>dq. units dq = []) (queue (ex_waiting [])) \<and>
   execUnit (ex_waiting []) = None \<and> execContext (ex_waiting []) = None \<and>
   onConsolePrompt ex_env ''> '' (Some (ex_waiting []), ex_store, []) =
     (Some (ex_waiting []), ex_store, []) \<and>
   onConsolePrompt ex_env ''> ''
       (executeNotebookChunks ex_env (ex_docQueue ''d2'' [6]) (Some (ex_waiting []), ex_store, [])) =
     (Some \<lparr>queue = [ex_docQueue ''d1'' [], ex_docQueue ''d2'' [6]],
            execUnit = None, execContext = None\<rparr>, ex_store, []) \<and>
   NotebookQueue_onConsolePrompt ex_env ''> '' (ex_waiting [3], ex_store, []) =
     (\<lparr>queue = [], execUnit = Some 3, execContext = None\<rparr>, ex_store,
      [ChunkExecStateChanged ''d1'' ''c3'' ChunkExecCancelled []]) \<and>
   onConsolePrompt ex_env ''> '' (Some (ex_waiting [3]), ex_store, []) =
     (None, ex_store, [ChunkExecStateChanged ''d1'' ''c3'' ChunkExecCancelled [], ThreadQuit])"
  by (simp add: run_simps ex_defs model_defs)

subsection \<open>The user interrupt\<close>

text \<open>
  C8. The user interrupt changes nothing when no global queue exists. When one
  exists, it disconnects the context if there is one, and the global queue is gone
  with its current unit and all its document queues; the only effects are that
  disconnection and the quit command of the console thread, so no notification is
  sent for any unit. After an interrupt a console prompt, a completion notification
  and a second interrupt change nothing.
\<close>

theorem C8_interrupt:
  "onUserInterrupt (None, h, out) = (None, h, out) \<and>
   onUserInterrupt (Some q, h, out) =
     (None, h,
      out @ (case execContext q of
               Some c \<Rightarrow> [CtxDisconnect (c_docId c) (c_chunkId c)]
             | None \<Rightarrow> [])
          @ [ThreadQuit]) \<and>
   onConsolePrompt e prompt (onUserInterrupt (s, h, out)) = onUserInterrupt (s, h, out) \<and>
   chunkExecCompleted e docId chunkId nbCtxId (onUserInterrupt (s, h, out)) =
     onUserInterrupt (s, h, out) \<and>
   onUserInterrupt (onUserInterrupt (s, h, out)) = onUserInterrupt (s, h, out)"
  by (auto split: option.splits)

text \<open>The interrupt while chunk c1 runs and chunk c2 waits.\<close>

theorem C8_interrupt_witness:
  "onUserInterrupt (Some (ex_running False), ex_store, []) =
     (None, ex_store, [CtxDisconnect ''d1'' ''c1'', ThreadQuit]) \<and>
   onConsolePrompt ex_env ''> '' (onUserInterrupt (Some (ex_running False), ex_store, [])) =
     (None, ex_store, [CtxDisconnect ''d1'' ''c1'', ThreadQuit]) \<and>
   onUserInterrupt (onUserInterrupt (Some (ex_running False), ex_store, [])) =
     (None, ex_store, [CtxDisconnect ''d1'' ''c1'', ThreadQuit])"
  using C8_interrupt [of ex_store "[]" "ex_running False" ex_env "''> ''" "Some (ex_running False)"]
  by (simp add: ex_defs)

subsection \<open>The console prompt and the expression mode\<close>

text \<open>
  C9. The console-prompt handler of the queue runs \<^verbatim>\<open>process\<close> in continuation mode
  when the prompt text is the two characters plus and space, and in the mode of a new
  expression for every other prompt text.
\<close>

theorem C9_prompt_classification:
  "(prompt = [CHR ''+'', CHR '' ''] \<longrightarrow>
      NotebookQueue_onConsolePrompt e prompt w = process e ExprModeContinuation w) \<and>
   (prompt \<noteq> [CHR ''+'', CHR '' ''] \<longrightarrow>
      NotebookQueue_onConsolePrompt e prompt w = process e ExprModeNew w)"
  by (simp add: NotebookQueue_onConsolePrompt_def)

text \<open>
  At the prompts "+ ", "+" and "... ", with chunk c1 current and finished: only the
  first is handled in continuation mode, and the two modes give different results
  there (the incomplete-expression error against the dispatch of chunk c2).
\<close>

theorem C9_prompt_classification_witness:
  "NotebookQueue_onConsolePrompt ex_env ''+ '' (ex_running False, ex_store, []) =
     process ex_env ExprModeContinuation (ex_running False, ex_store, []) \<and>
   NotebookQueue_onConsolePrompt ex_env ''+'' (ex_running False, ex_store, []) =
     process ex_env ExprModeNew (ex_running False, ex_store, []) \<and>
   NotebookQueue_onConsolePrompt ex_env ''... '' (ex_running False, ex_store, []) =
     process ex_env ExprModeNew (ex_running False, ex_store, []) \<and>
   process ex_env ExprModeContinuation (ex_running False, ex_store, []) \<noteq>
     process ex_env ExprModeNew (ex_running False, ex_store, [])"
proof -
  have "process ex_env ExprModeContinuation (ex_running False, ex_store, []) \<noteq>
     process ex_env ExprModeNew (ex_running False, ex_store, [])"
    by (simp add: run_simps ex_defs model_defs)
  then show ?thesis
    using C9_prompt_classification [of "''+ ''" ex_env "(ex_running False, ex_store, [])"]
      C9_prompt_classification [of "''+''" ex_env "(ex_running False, ex_store, [])"]
      C9_prompt_classification [of "''... ''" ex_env "(ex_running False, ex_store, [])"]
    by simp
qed

subsection \<open>The context id of a completion\<close>

text \<open>
  The handler of a chunk-execution-completed notification never reads the context id:
  two notifications that differ only in it have the same result. For a current unit
  with no context, a notification with the unit's document id and chunk id and any
  context id removes the unit, sends Finished, clears the current unit and runs
  \<^verbatim>\<open>process\<close>.
\<close>

lemma onChunkExecCompleted_any_context_id:
  "onChunkExecCompleted e docId chunkId nbCtxId w = onChunkExecCompleted e docId chunkId nbCtxId' w \<and>
   (execUnit q = Some a \<and> execContext q = None \<longrightarrow>
      onChunkExecCompleted e (u_docId (h a)) (u_chunkId (h a)) nbCtxId (q, h, out) =
        process e ExprModeNew
          (q\<lparr>queue := dropUnit h a (queue q), execUnit := None\<rparr>, h,
           out @ [ChunkExecStateChanged (u_docId (h a)) (u_chunkId (h a)) ChunkExecFinished []]))"
  by (cases w) (simp add: popUnit_eq del: popUnit.simps)

text \<open>Chunk c5 is completed by a notification that carries a foreign context id.\<close>

lemma onChunkExecCompleted_any_context_id_example:
  "onChunkExecCompleted ex_env ''d1'' ''c5'' ''stale'' (ex_alternate, ex_store, []) =
     onChunkExecCompleted ex_env ''d1'' ''c5'' ''saved'' (ex_alternate, ex_store, []) \<and>
   onChunkExecCompleted ex_env ''d1'' ''c5'' ''stale'' (ex_alternate, ex_store, []) =
     (\<lparr>queue = [ex_docQueue ''d1'' [2]], execUnit = Some 2,
       execContext = Some (ex_context ''c2'' [] False)\<rparr>,
      ex_store(2 := ex_unit ''d1'' ''c2'' [] (Success, [])),
      [ChunkExecStateChanged ''d1'' ''c5'' ChunkExecFinished [],
       CtxConnect ''d1'' ''c2'',
       ChunkExecStateChanged ''d1'' ''c2'' ChunkExecStarted [],
       CtxExprComplete ''d1'' ''c2'',
       ConsoleInput (JsonString ''1+1'') ''c2'' ''client'',
       NotebookRangeExecuted ''d1'' ''c2'' (0, 4) ExprModeNew ''1+1''])"
proof -
  have a: "execUnit ex_alternate = Some 5 \<and> execContext ex_alternate = None"
    by (simp add: ex_alternate_def)
  have i: "u_docId (ex_store 5) = ''d1''" "u_chunkId (ex_store 5) = ''c5''"
    by (simp_all add: ex_store_def ex_unit_def)
  show ?thesis
    using a onChunkExecCompleted_any_context_id [where e = ex_env and docId = "''d1''" and chunkId = "''c5''"
        and nbCtxId = "''stale''" and nbCtxId' = "''saved''" and w = "(ex_alternate, ex_store, [])"
        and q = ex_alternate and a = 5 and h = ex_store and out = "[]"]
    unfolding i
    by (simp add: run_simps ex_defs model_defs)
qed

text \<open>
  C10. A current unit of an alternate engine that no completion notification
  completes. The handler takes the absence of a context for the sign of an alternate
  engine. When a request brings chunk c4, whose options cannot be parsed, before chunk
  c5 for the engine python, c4 is given a context before its error is tested, and its
  skip leaves that context attached. Chunk c5 is then started on the alternate engine
  with the context of c4 still in place, and the notification that c5 has completed
  changes nothing, whatever context id it carries.
\<close>

theorem C10_stale_context_blocks_completion:
  "executeNotebookChunks ex_env (ex_docQueue ''d1'' [4, 5]) (None, ex_store, []) =
     (Some \<lparr>queue = [ex_docQueue ''d1'' [5]], execUnit = Some 5,
            execContext = Some (ex_context ''c4'' [] False)\<rparr>,
      ex_store,
      [LogError (Failure ''bad options''),
       CtxConnect ''d1'' ''c4'',
       ChunkExecStateChanged ''d1'' ''c4'' ChunkExecStarted [],
       ChunkExecStateChanged ''d1'' ''c4'' ChunkExecCancelled [],
       ChunkExecStateChanged ''d1'' ''c5'' ChunkExecStarted [(''engine'', JsonString ''python'')],
       AlternateEngineExec ''d1'' ''c5'' ''saved'' ''python'' ''print(1)''
         [(''engine'', JsonString ''python'')]]) \<and>
   chunkExecCompleted ex_env ''d1'' ''c5'' nbCtxId
       (executeNotebookChunks ex_env (ex_docQueue ''d1'' [4, 5]) (None, ex_store, [])) =
     executeNotebookChunks ex_env (ex_docQueue ''d1'' [4, 5]) (None, ex_store, [])"
  by (simp add: run_simps ex_defs model_defs Let_def)

end
